theory Spec2Isabelle
  imports Complex_Main "HOL-Library.AList" "HOL-Library.Log_Nat"
begin

section \<open>The shared Session Store (Redis)\<close>

text \<open>
  \<^verbatim>\<open>src/utils/redisClient.js\<close> talks to one Redis server through \<^verbatim>\<open>this.client\<close>.
  Two families of keys matter here: \<^verbatim>\<open>'session_owner:' + sessionId\<close>, holding
  \<^verbatim>\<open>String(processId)\<close>, and \<^verbatim>\<open>'outbound_session:' + sessionId\<close>, holding
  \<^verbatim>\<open>JSON.stringify(data)\<close>. The prefixes differ, so the families never collide and are
  kept as two maps. \<^verbatim>\<open>String\<close> of a process id is a non-empty decimal string and is
  injective, so the stored owner is the number itself; \<^verbatim>\<open>JSON.parse\<close> of
  \<^verbatim>\<open>JSON.stringify\<close> gives the object back, so the stored record is the object itself.
  Every key carries the absolute second at which it expires (\<^verbatim>\<open>EX ttlSeconds\<close>).
\<close>

type_synonym sid = string
type_synonym pid = nat

datatype jval = JNull | JBool bool | JNum int | JStr string | JObj "(string \<times> jval) list"

type_synonym jobj = "(string \<times> jval) list"

record store =
  owners :: "sid \<Rightarrow> (pid \<times> nat) option"
  sessions :: "sid \<Rightarrow> (jobj \<times> nat) option"
  clock :: nat
  up :: bool

datatype redis_error = RedisError

definition live :: "nat \<Rightarrow> ('a \<times> nat) option \<Rightarrow> 'a option" where
  "live now e = (case e of None \<Rightarrow> None | Some (v, deadline) \<Rightarrow> if now < deadline then Some v else None)"

text \<open>One Redis command each; a client whose connection is down throws.\<close>

definition redis_get_owner :: "sid \<Rightarrow> store \<Rightarrow> (redis_error + pid option) \<times> store" where
  "redis_get_owner k st = (if up st then (Inr (live (clock st) (owners st k)), st) else (Inl RedisError, st))"

definition redis_set_owner_nx :: "sid \<Rightarrow> pid \<Rightarrow> nat \<Rightarrow> store \<Rightarrow> (redis_error + bool) \<times> store" where
  "redis_set_owner_nx k v ttl st =
     (if \<not> up st then (Inl RedisError, st)
      else if live (clock st) (owners st k) \<noteq> None then (Inr False, st)
      else (Inr True, st\<lparr>owners := (owners st)(k \<mapsto> (v, clock st + ttl))\<rparr>))"

definition redis_expire_owner :: "sid \<Rightarrow> nat \<Rightarrow> store \<Rightarrow> (redis_error + bool) \<times> store" where
  "redis_expire_owner k ttl st =
     (if \<not> up st then (Inl RedisError, st)
      else case live (clock st) (owners st k) of
             None \<Rightarrow> (Inr False, st)
           | Some v \<Rightarrow> (Inr True, st\<lparr>owners := (owners st)(k \<mapsto> (v, clock st + ttl))\<rparr>))"

definition redis_del_owner :: "sid \<Rightarrow> store \<Rightarrow> (redis_error + bool) \<times> store" where
  "redis_del_owner k st =
     (if \<not> up st then (Inl RedisError, st)
      else (Inr (live (clock st) (owners st k) \<noteq> None), st\<lparr>owners := (owners st)(k := None)\<rparr>))"

definition redis_get_session :: "sid \<Rightarrow> store \<Rightarrow> (redis_error + jobj option) \<times> store" where
  "redis_get_session k st = (if up st then (Inr (live (clock st) (sessions st k)), st) else (Inl RedisError, st))"

definition redis_set_session :: "sid \<Rightarrow> jobj \<Rightarrow> nat \<Rightarrow> store \<Rightarrow> (redis_error + unit) \<times> store" where
  "redis_set_session k v ttl st =
     (if \<not> up st then (Inl RedisError, st)
      else (Inr (), st\<lparr>sessions := (sessions st)(k \<mapsto> (v, clock st + ttl))\<rparr>))"

definition redis_del_session :: "sid \<Rightarrow> store \<Rightarrow> (redis_error + unit) \<times> store" where
  "redis_del_session k st =
     (if \<not> up st then (Inl RedisError, st)
      else (Inr (), st\<lparr>sessions := (sessions st)(k := None)\<rparr>))"

text \<open>
  An \<^verbatim>\<open>async\<close> method is a program that issues one command at each \<^verbatim>\<open>await\<close> and
  continues with the reply. Between two commands of one method, commands of other
  processes may run.
\<close>

datatype 'a prog =
    Return 'a
  | GetOwner sid "(redis_error + pid option) \<Rightarrow> 'a prog"
  | SetOwnerNX sid pid nat "(redis_error + bool) \<Rightarrow> 'a prog"
  | ExpireOwner sid nat "(redis_error + bool) \<Rightarrow> 'a prog"
  | DelOwner sid "(redis_error + bool) \<Rightarrow> 'a prog"
  | GetSession sid "(redis_error + jobj option) \<Rightarrow> 'a prog"
  | SetSession sid jobj nat "(redis_error + unit) \<Rightarrow> 'a prog"
  | DelSession sid "(redis_error + unit) \<Rightarrow> 'a prog"

text \<open>\<open>step\<close> runs the next command only; \<open>exec\<close> runs a method to its end with no other
  command in between.\<close>

fun step :: "'a prog \<Rightarrow> store \<Rightarrow> 'a prog \<times> store" where
  "step (Return a) st = (Return a, st)"
| "step (GetOwner k f) st = (case redis_get_owner k st of (r, st') \<Rightarrow> (f r, st'))"
| "step (SetOwnerNX k v ttl f) st = (case redis_set_owner_nx k v ttl st of (r, st') \<Rightarrow> (f r, st'))"
| "step (ExpireOwner k ttl f) st = (case redis_expire_owner k ttl st of (r, st') \<Rightarrow> (f r, st'))"
| "step (DelOwner k f) st = (case redis_del_owner k st of (r, st') \<Rightarrow> (f r, st'))"
| "step (GetSession k f) st = (case redis_get_session k st of (r, st') \<Rightarrow> (f r, st'))"
| "step (SetSession k v ttl f) st = (case redis_set_session k v ttl st of (r, st') \<Rightarrow> (f r, st'))"
| "step (DelSession k f) st = (case redis_del_session k st of (r, st') \<Rightarrow> (f r, st'))"

primrec exec :: "'a prog \<Rightarrow> store \<Rightarrow> 'a \<times> store" where
  "exec (Return a) st = (a, st)"
| "exec (GetOwner k f) st = (case redis_get_owner k st of (r, st') \<Rightarrow> exec (f r) st')"
| "exec (SetOwnerNX k v ttl f) st = (case redis_set_owner_nx k v ttl st of (r, st') \<Rightarrow> exec (f r) st')"
| "exec (ExpireOwner k ttl f) st = (case redis_expire_owner k ttl st of (r, st') \<Rightarrow> exec (f r) st')"
| "exec (DelOwner k f) st = (case redis_del_owner k st of (r, st') \<Rightarrow> exec (f r) st')"
| "exec (GetSession k f) st = (case redis_get_session k st of (r, st') \<Rightarrow> exec (f r) st')"
| "exec (SetSession k v ttl f) st = (case redis_set_session k v ttl st of (r, st') \<Rightarrow> exec (f r) st')"
| "exec (DelSession k f) st = (case redis_del_session k st of (r, st') \<Rightarrow> exec (f r) st')"

section \<open>SessionManager: the Ownership Registry and the Session records\<close>

text \<open>A \<^verbatim>\<open>catch\<close> block that logs and returns is the \<open>Inl\<close> branch of each reply.\<close>

definition acquireSessionOwnership :: "sid \<Rightarrow> pid \<Rightarrow> nat \<Rightarrow> bool prog" where
  "acquireSessionOwnership sessionId processId ttlSeconds =
     SetOwnerNX sessionId processId ttlSeconds (\<lambda>result.
       case result of
         Inl err \<Rightarrow> Return False
       | Inr True \<Rightarrow> Return True
       | Inr False \<Rightarrow> GetOwner sessionId (\<lambda>currentOwner. Return False))"

definition updateSessionOwnership :: "sid \<Rightarrow> pid \<Rightarrow> nat \<Rightarrow> bool prog" where
  "updateSessionOwnership sessionId processId ttlSeconds =
     GetOwner sessionId (\<lambda>currentOwner.
       case currentOwner of
         Inl err \<Rightarrow> Return False
       | Inr None \<Rightarrow> acquireSessionOwnership sessionId processId ttlSeconds
       | Inr (Some owner) \<Rightarrow>
           if owner = processId
           then ExpireOwner sessionId ttlSeconds (\<lambda>r. case r of Inl err \<Rightarrow> Return False | Inr _ \<Rightarrow> Return True)
           else Return False)"

definition releaseSessionOwnership :: "sid \<Rightarrow> pid \<Rightarrow> bool prog" where
  "releaseSessionOwnership sessionId processId =
     GetOwner sessionId (\<lambda>currentOwner.
       case currentOwner of
         Inl err \<Rightarrow> Return False
       | Inr None \<Rightarrow> Return True
       | Inr (Some owner) \<Rightarrow>
           if owner = processId
           then DelOwner sessionId (\<lambda>r. case r of Inl err \<Rightarrow> Return False | Inr _ \<Rightarrow> Return True)
           else Return False)"

definition getSessionOwner :: "sid \<Rightarrow> pid option prog" where
  "getSessionOwner sessionId =
     GetOwner sessionId (\<lambda>owner. case owner of Inl err \<Rightarrow> Return None | Inr v \<Rightarrow> Return v)"

definition saveOutboundSession :: "sid \<Rightarrow> jobj \<Rightarrow> nat \<Rightarrow> unit prog" where
  "saveOutboundSession sessionId data ttlSeconds =
     SetSession sessionId data ttlSeconds (\<lambda>r. Return ())"

definition getOutboundSession :: "sid \<Rightarrow> jobj option prog" where
  "getOutboundSession sessionId =
     GetSession sessionId (\<lambda>data. case data of Inl err \<Rightarrow> Return None | Inr v \<Rightarrow> Return v)"

definition deleteOutboundSession :: "sid \<Rightarrow> unit prog" where
  "deleteOutboundSession sessionId = DelSession sessionId (\<lambda>r. Return ())"


section \<open>Processes interleaving their Registry calls\<close>

text \<open>
  Several processes share the store. A Registry call is started (\<open>Call\<close>), then advanced
  one Redis command at a time; commands of different calls interleave freely, and
  \<open>Tick\<close> lets seconds pass, which is how a lease expires. One process may have several
  calls in flight: \<^verbatim>\<open>_refreshOwnership\<close> is started without \<^verbatim>\<open>await\<close>
  (\<^verbatim>\<open>website-scraper.js\<close> 662, 810) while \<^verbatim>\<open>endConversation\<close> awaits a release (1014).
  \<open>Step p i\<close> lets the \<open>i\<close>-th call in flight of process \<open>p\<close> issue its next command.
  When a call returns, its result is recorded and the process notes what it was told:
  after a successful acquire or renew it counts itself holder of the lease for the next
  \<open>ttl\<close> seconds, after a successful release it no longer does.
\<close>

datatype call = Acquire sid nat | Renew sid nat | Release sid

fun call_prog :: "pid \<Rightarrow> call \<Rightarrow> bool prog" where
  "call_prog p (Acquire s ttl) = acquireSessionOwnership s p ttl"
| "call_prog p (Renew s ttl) = updateSessionOwnership s p ttl"
| "call_prog p (Release s) = releaseSessionOwnership s p"

datatype event = Call pid call | Step pid nat | Tick nat

record world =
  redis :: store
  running :: "pid \<Rightarrow> (call \<times> bool prog) list"
  told :: "pid \<Rightarrow> sid \<Rightarrow> nat option"
  returned :: "(pid \<times> call \<times> bool) list"

fun finish :: "call \<Rightarrow> bool \<Rightarrow> nat \<Rightarrow> (sid \<Rightarrow> nat option) \<Rightarrow> (sid \<Rightarrow> nat option)" where
  "finish (Acquire s ttl) True now g = g(s \<mapsto> now + ttl)"
| "finish (Renew s ttl) True now g = g(s \<mapsto> now + ttl)"
| "finish (Release s) True now g = g(s := None)"
| "finish c False now g = g"

definition is_Return :: "'a prog \<Rightarrow> 'a option" where
  "is_Return pr = (case pr of Return b \<Rightarrow> Some b | _ \<Rightarrow> None)"

definition drop_nth :: "nat \<Rightarrow> 'a list \<Rightarrow> 'a list" where
  "drop_nth i xs = take i xs @ drop (Suc i) xs"

fun apply_event :: "event \<Rightarrow> world \<Rightarrow> world" where
  "apply_event (Call p c) w = w\<lparr>running := (running w)(p := running w p @ [(c, call_prog p c)])\<rparr>"
| "apply_event (Step p i) w =
     (if length (running w p) \<le> i then w
      else case running w p ! i of (c, pr) \<Rightarrow>
          (case step pr (redis w) of (pr', st') \<Rightarrow>
             (case is_Return pr' of
                Some b \<Rightarrow> w\<lparr>redis := st', running := (running w)(p := drop_nth i (running w p)),
                              told := (told w)(p := finish c b (clock st') (told w p)),
                              returned := returned w @ [(p, c, b)]\<rparr>
              | None \<Rightarrow> w\<lparr>redis := st', running := (running w)(p := (running w p)[i := (c, pr')])\<rparr>)))"
| "apply_event (Tick d) w = w\<lparr>redis := (redis w)\<lparr>clock := clock (redis w) + d\<rparr>\<rparr>"

fun run :: "event list \<Rightarrow> world \<Rightarrow> world" where
  "run [] w = w"
| "run (e # es) w = run es (apply_event e w)"

definition holds :: "world \<Rightarrow> pid \<Rightarrow> sid \<Rightarrow> bool" where
  "holds w p s = (case told w p s of None \<Rightarrow> False | Some deadline \<Rightarrow> clock (redis w) < deadline)"

definition lease_owner :: "world \<Rightarrow> sid \<Rightarrow> pid option" where
  "lease_owner w s = live (clock (redis w)) (owners (redis w) s)"

text \<open>
  Renew and release read the lease with \<^verbatim>\<open>GET\<close> and write with a later \<^verbatim>\<open>EXPIRE\<close> or
  \<^verbatim>\<open>DEL\<close>. The write is stale when what the read saw no longer holds as the write
  lands: an \<^verbatim>\<open>EXPIRE\<close> on a lease that is not the caller's any more (lapsed, or taken by
  another process), a \<^verbatim>\<open>DEL\<close> on a lease that another process has taken. A run has no
  stale write when none of its steps is one.
\<close>

fun stale_write :: "pid \<Rightarrow> 'a prog \<Rightarrow> store \<Rightarrow> bool" where
  "stale_write p (ExpireOwner k ttl f) st = (up st \<and> live (clock st) (owners st k) \<noteq> Some p)"
| "stale_write p (DelOwner k f) st =
     (up st \<and> (case live (clock st) (owners st k) of None \<Rightarrow> False | Some q \<Rightarrow> q \<noteq> p))"
| "stale_write p pr st = False"

fun stale :: "event \<Rightarrow> world \<Rightarrow> bool" where
  "stale (Step p i) w = (i < length (running w p) \<and> stale_write p (snd (running w p ! i)) (redis w))"
| "stale e w = False"

fun no_stale_write :: "event list \<Rightarrow> world \<Rightarrow> bool" where
  "no_stale_write [] w = True"
| "no_stale_write (e # es) w = (\<not> stale e w \<and> no_stale_write es (apply_event e w))"

section \<open>Program points and the invariant of runs without a stale write\<close>

text \<open>The places where a Registry call can be suspended after its first command.\<close>

definition expireStage :: "sid \<Rightarrow> nat \<Rightarrow> bool prog" where
  "expireStage s t = ExpireOwner s t (\<lambda>r. case r of Inl err \<Rightarrow> Return False | Inr _ \<Rightarrow> Return True)"
definition delStage :: "sid \<Rightarrow> bool prog" where
  "delStage s = DelOwner s (\<lambda>r. case r of Inl err \<Rightarrow> Return False | Inr _ \<Rightarrow> Return True)"
definition logStage :: "sid \<Rightarrow> bool prog" where
  "logStage s = GetOwner s (\<lambda>currentOwner. Return False)"

text \<open>What may be in flight for process \<open>p\<close>: a call at its start or at one of the
  program points above.\<close>

definition at_point :: "pid \<Rightarrow> call \<Rightarrow> bool prog \<Rightarrow> bool" where
  "at_point p c pr =
     (case c of
        Acquire s t \<Rightarrow> pr = acquireSessionOwnership s p t \<or> pr = logStage s
      | Renew s t \<Rightarrow> pr = updateSessionOwnership s p t \<or> pr = acquireSessionOwnership s p t
                       \<or> pr = logStage s \<or> pr = expireStage s t
      | Release s \<Rightarrow> pr = releaseSessionOwnership s p \<or> pr = delStage s)"

text \<open>What the processes were told agrees with the store: a process counts itself
  holder until \<open>d\<close> exactly when the store has its lease with deadline \<open>d\<close>.\<close>

definition agree :: "store \<Rightarrow> (pid \<Rightarrow> sid \<Rightarrow> nat option) \<Rightarrow> bool" where
  "agree st tld =
     (\<forall>p s d. clock st < d \<longrightarrow> (tld p s = Some d) = (owners st s = Some (p, d)))"

definition points_ok :: "world \<Rightarrow> bool" where
  "points_ok w = (\<forall>p c pr. (c, pr) \<in> set (running w p) \<longrightarrow> at_point p c pr)"

definition Inv :: "world \<Rightarrow> bool" where
  "Inv w = (agree (redis w) (told w) \<and> points_ok w)"

text \<open>What one command of a call in flight can do when it is not a stale write.\<close>

datatype outcome = Continues | Fails | Absent sid | Granted sid nat | Deleted sid

fun outcome_of :: "pid \<Rightarrow> call \<Rightarrow> store \<Rightarrow> bool prog \<times> store \<Rightarrow> outcome \<Rightarrow> bool" where
  "outcome_of p c st (pr', st') Continues = (st' = st \<and> is_Return pr' = None \<and> at_point p c pr')"
| "outcome_of p c st (pr', st') Fails = (st' = st \<and> pr' = Return False)"
| "outcome_of p c st (pr', st') (Absent s) =
     (st' = st \<and> pr' = Return True \<and> c = Release s \<and> live (clock st) (owners st s) = None)"
| "outcome_of p c st (pr', st') (Granted s t) =
     (pr' = Return True \<and> (c = Acquire s t \<or> c = Renew s t)
      \<and> live (clock st) (owners st s) \<in> {None, Some p}
      \<and> st' = st\<lparr>owners := (owners st)(s \<mapsto> (p, clock st + t))\<rparr>)"
| "outcome_of p c st (pr', st') (Deleted s) =
     (pr' = Return True \<and> c = Release s
      \<and> live (clock st) (owners st s) \<in> {None, Some p}
      \<and> st' = st\<lparr>owners := (owners st)(s := None)\<rparr>)"

text \<open>An event of a run in which only acquire is called.\<close>

definition acquire_only :: "event \<Rightarrow> bool" where
  "acquire_only e = (case e of Call p (Renew s t) \<Rightarrow> False | Call p (Release s) \<Rightarrow> False | _ \<Rightarrow> True)"

section \<open>JSON objects\<close>

text \<open>
  An object is its list of properties in insertion order. \<^verbatim>\<open>{...o, k: v}\<close> overwrites
  \<open>k\<close> in place or appends it, which is \<open>AList.update\<close>. \<open>truthy\<close> is JavaScript's
  conversion to boolean of a property read (\<^verbatim>\<open>undefined\<close> is \<open>None\<close>).
\<close>

fun jprop :: "jval \<Rightarrow> string \<Rightarrow> jval option" where
  "jprop (JObj ps) k = map_of ps k"
| "jprop v k = None"

fun truthy :: "jval option \<Rightarrow> bool" where
  "truthy None = False"
| "truthy (Some JNull) = False"
| "truthy (Some (JBool b)) = b"
| "truthy (Some (JNum n)) = (n \<noteq> 0)"
| "truthy (Some (JStr s)) = (s \<noteq> [])"
| "truthy (Some (JObj ps)) = True"

definition spread :: "jobj \<Rightarrow> (string \<times> jval) list \<Rightarrow> jobj" where
  "spread obj kvs = foldl (\<lambda>acc (k, v). AList.update k v acc) obj kvs"

section \<open>The AI-provider connection manager (ElevenLabsWebSocketClient)\<close>

text \<open>
  From \<^verbatim>\<open>src/utils/website-scraper.js\<close>, lines 523 to 1297. A \<^verbatim>\<open>ws\<close> socket is the record
  of what the code can see and do on it: its \<^verbatim>\<open>readyState\<close>, the frames passed to
  \<^verbatim>\<open>send\<close>, the pings sent, the arguments of \<^verbatim>\<open>close\<close>, and whether listeners are
  attached. A pending timer is a set field; a cleared or fired timer is an unset one.
  Callbacks and emitted events are recorded in the order they happen; a callback is
  taken not to call back into the client.
\<close>

definition RECONNECT_BASE_DELAY_MS :: nat where "RECONNECT_BASE_DELAY_MS = 1000"
definition RECONNECT_MAX_DELAY_MS :: nat where "RECONNECT_MAX_DELAY_MS = 30000"
definition RECONNECT_FACTOR :: nat where "RECONNECT_FACTOR = 2"
definition RECONNECT_MAX_ATTEMPTS :: "nat option" where "RECONNECT_MAX_ATTEMPTS = Some 10"
definition HEARTBEAT_INTERVAL_MS :: nat where "HEARTBEAT_INTERVAL_MS = 15000"
definition PONG_TIMEOUT_MS :: nat where "PONG_TIMEOUT_MS = 5000"

datatype status = CONNECTING | OPEN | ERROR | CLOSED_TEMP | RECONNECTING | CLOSING | CLOSED

datatype ready_state = WS_CONNECTING | WS_OPEN | WS_CLOSING | WS_CLOSED

datatype close_reason =
    ConversationEndedByClient
  | TerminationRequestedByProcess "jval option"
  | OtherReason string

record websocket =
  readyState :: ready_state
  sent :: "jval list"
  pings :: nat
  closeArgs :: "(nat \<times> close_reason) option"
  listeners :: bool

datatype ws_error = SendOnNonOpenSocket

definition ws_send :: "websocket \<Rightarrow> jval \<Rightarrow> ws_error + websocket" where
  "ws_send w frame =
     (if readyState w = WS_OPEN then Inr (w\<lparr>sent := sent w @ [frame]\<rparr>) else Inl SendOnNonOpenSocket)"

definition ws_close :: "nat \<Rightarrow> close_reason \<Rightarrow> websocket \<Rightarrow> websocket" where
  "ws_close code reason w =
     (if readyState w = WS_CLOSED then w
      else w\<lparr>readyState := WS_CLOSING, closeArgs := Some (code, reason)\<rparr>)"

definition new_WebSocket :: websocket where
  "new_WebSocket = \<lparr>readyState = WS_CONNECTING, sent = [], pings = 0, closeArgs = None, listeners = True\<rparr>"

record session =
  ws :: "websocket option"
  status :: status
  onMessage :: bool
  onError :: bool
  onClose :: bool
  onReconnecting :: bool
  reconnectTimer :: "nat option"
  heartbeatTimer :: bool
  pongTimeoutTimer :: bool
  reconnectAttempts :: nat
  processId :: pid

datatype effect =
    Emit string sid "jval list"
  | Callback string sid "jval list"

record client =
  activeSessions :: "sid \<Rightarrow> session option"
  process_pid :: pid
  effects :: "effect list"

definition modify :: "sid \<Rightarrow> (session \<Rightarrow> session) \<Rightarrow> client \<Rightarrow> client" where
  "modify sessionId f c =
     (case activeSessions c sessionId of
        None \<Rightarrow> c
      | Some session \<Rightarrow> c\<lparr>activeSessions := (activeSessions c)(sessionId \<mapsto> f session)\<rparr>)"

definition emit :: "effect \<Rightarrow> client \<Rightarrow> client" where
  "emit e c = c\<lparr>effects := effects c @ [e]\<rparr>"

definition clearPongTimeoutTimer :: "sid \<Rightarrow> client \<Rightarrow> client" where
  "clearPongTimeoutTimer sessionId = modify sessionId (\<lambda>s. s\<lparr>pongTimeoutTimer := False\<rparr>)"

definition clearReconnectTimer :: "sid \<Rightarrow> client \<Rightarrow> client" where
  "clearReconnectTimer sessionId = modify sessionId (\<lambda>s. s\<lparr>reconnectTimer := None\<rparr>)"

definition clearHeartbeatIntervalTimer :: "sid \<Rightarrow> client \<Rightarrow> client" where
  "clearHeartbeatIntervalTimer sessionId = modify sessionId (\<lambda>s. s\<lparr>heartbeatTimer := False\<rparr>)"

definition clearTimers :: "sid \<Rightarrow> client \<Rightarrow> client" where
  "clearTimers sessionId c = clearPongTimeoutTimer sessionId (clearHeartbeatIntervalTimer sessionId c)"

definition stopHeartbeat :: "sid \<Rightarrow> client \<Rightarrow> client" where
  "stopHeartbeat sessionId c = clearTimers sessionId c"

definition cleanupSession :: "sid \<Rightarrow> client \<Rightarrow> client" where
  "cleanupSession sessionId c =
     (case activeSessions c sessionId of
        None \<Rightarrow> c
      | Some session \<Rightarrow>
          (let c1 = clearReconnectTimer sessionId (clearTimers sessionId c);
               c2 = modify sessionId (\<lambda>s. s\<lparr>ws := map_option (\<lambda>w. w\<lparr>listeners := False\<rparr>) (ws s)\<rparr>) c1
           in c2\<lparr>activeSessions := (activeSessions c2)(sessionId := None)\<rparr>))"

text \<open>
  JavaScript numbers are IEEE 754 doubles. A double is a rational number, and an
  arithmetic operation returns the exact result rounded to the nearest double, ties to
  the even significand. \<open>ulp x\<close> is the spacing of the doubles around \<open>x\<close>: with
  \<open>2 ^ e \<le> \<bar>x\<bar> < 2 ^ (e + 1)\<close> it is \<open>2 ^ (e - 52)\<close>, and \<open>2 ^ - 1074\<close> below the normal
  range; the exponent is read off the bit length of \<open>\<bar>x\<bar>\<close> scaled by \<open>2 ^ 1074\<close>. \<open>fl x\<close>
  is \<open>x\<close> rounded to a double (no magnitude here comes near the overflow threshold).
\<close>

definition round_half_even :: "rat \<Rightarrow> int" where
  "round_half_even y =
     (if y - of_int \<lfloor>y\<rfloor> < 1 / 2 then \<lfloor>y\<rfloor>
      else if 1 / 2 < y - of_int \<lfloor>y\<rfloor> then \<lfloor>y\<rfloor> + 1
      else if even \<lfloor>y\<rfloor> then \<lfloor>y\<rfloor> else \<lfloor>y\<rfloor> + 1)"

definition SUBNORMAL_BITS :: nat where "SUBNORMAL_BITS = 1074"

definition ulp :: "rat \<Rightarrow> rat" where
  "ulp x = power_int 2 (max (bitlen \<lfloor>\<bar>x\<bar> * 2 ^ SUBNORMAL_BITS\<rfloor>) 53 - 1127)"

definition fl :: "rat \<Rightarrow> rat" where
  "fl x = ulp x * of_int (round_half_even (x / ulp x))"

text \<open>The literal \<^verbatim>\<open>0.2\<close> is the double nearest to one fifth.\<close>

definition double_0_2 :: rat where
  "double_0_2 = fl (2 / 10)"

text \<open>
  The delay of \<^verbatim>\<open>_scheduleReconnect\<close> (lines 776 to 778), for the value \<open>n\<close> that
  \<^verbatim>\<open>session.reconnectAttempts\<close> has after its increment and the double \<open>rnd\<close> that
  \<^verbatim>\<open>Math.random()\<close> returned. \<^verbatim>\<open>Math.pow\<close> of 2, its product with 1000 and the minimum
  with the cap are exact, and where they would overflow the minimum is the cap, as here.
  \<^verbatim>\<open>baseDelay * 0.2 * Math.random()\<close> is two multiplications, left to right, each rounded;
  the sum \<^verbatim>\<open>baseDelay + jitter\<close> is rounded; \<^verbatim>\<open>Math.round\<close> returns the nearest integer,
  a half going up.
\<close>

definition baseDelay :: "nat \<Rightarrow> nat" where
  "baseDelay n = min RECONNECT_MAX_DELAY_MS (RECONNECT_BASE_DELAY_MS * RECONNECT_FACTOR ^ (n - 1))"

definition jitter :: "nat \<Rightarrow> rat \<Rightarrow> rat" where
  "jitter n rnd = fl (fl (of_nat (baseDelay n) * double_0_2) * rnd)"

definition Math_round :: "rat \<Rightarrow> int" where
  "Math_round x = \<lfloor>x + 1 / 2\<rfloor>"

definition reconnectDelay :: "nat \<Rightarrow> rat \<Rightarrow> int" where
  "reconnectDelay n rnd = Math_round (fl (of_nat (baseDelay n) + jitter n rnd))"

definition scheduleReconnect :: "rat \<Rightarrow> sid \<Rightarrow> client \<Rightarrow> client" where
  "scheduleReconnect rnd sessionId c =
     (case activeSessions c sessionId of
        None \<Rightarrow> c
      | Some session \<Rightarrow>
          if status session = CLOSING \<or> status session = CLOSED then c
          else if RECONNECT_MAX_ATTEMPTS \<noteq> None \<and> reconnectAttempts session \<ge> the RECONNECT_MAX_ATTEMPTS
          then
            (let c1 = modify sessionId (\<lambda>s. s\<lparr>status := CLOSED\<rparr>) c;
                 c2 = emit (Emit ''permanently_closed'' sessionId [JStr ''Max reconnection attempts reached'']) c1;
                 c3 = (if onClose session
                       then emit (Callback ''onClose'' sessionId
                                    [JNum 1011, JStr ''Max reconnection attempts reached'']) c2
                       else c2)
             in cleanupSession sessionId c3)
          else
            (let n = reconnectAttempts session + 1;
                 c1 = modify sessionId (\<lambda>s. s\<lparr>reconnectAttempts := n, status := RECONNECTING\<rparr>) c;
                 delay = reconnectDelay n rnd;
                 c2 = emit (Emit ''reconnecting'' sessionId [JNum (int n), JNum delay]) c1;
                 c3 = (if onReconnecting session
                       then emit (Callback ''onReconnecting'' sessionId [JNum (int n), JNum delay]) c2
                       else c2);
                 c4 = clearReconnectTimer sessionId c3
             in modify sessionId (\<lambda>s. s\<lparr>reconnectTimer := Some (nat delay)\<rparr>) c4))"

definition handleDisconnect :: "rat \<Rightarrow> sid \<Rightarrow> bool \<Rightarrow> client \<Rightarrow> client" where
  "handleDisconnect rnd sessionId isCleanClose c =
     (case activeSessions c sessionId of
        None \<Rightarrow> c
      | Some session \<Rightarrow>
          if status session = CLOSING \<or> status session = CLOSED then c
          else
            (let c1 = stopHeartbeat sessionId c in
             if isCleanClose \<or> status session = CLOSING
             then
               (let c2 = modify sessionId (\<lambda>s. s\<lparr>status := CLOSED\<rparr>) c1;
                    c3 = emit (Emit ''close'' sessionId [JNum 1000, JStr ''Clean closure'']) c2;
                    c4 = (if onClose session
                          then emit (Callback ''onClose'' sessionId [JNum 1000, JStr ''Clean closure'']) c3
                          else c3)
                in cleanupSession sessionId c4)
             else scheduleReconnect rnd sessionId c1))"

text \<open>\<^verbatim>\<open>_connect\<close>; \<open>throws\<close> says whether \<^verbatim>\<open>new WebSocket\<close> throws.\<close>

definition connect :: "rat \<Rightarrow> bool \<Rightarrow> sid \<Rightarrow> client \<Rightarrow> client" where
  "connect rnd throws sessionId c =
     (case activeSessions c sessionId of
        None \<Rightarrow> c
      | Some session \<Rightarrow>
          if status session = CLOSING \<or> status session = CLOSED then c
          else
            (let c1 = modify sessionId (\<lambda>s. s\<lparr>status := CONNECTING\<rparr>) c;
                 c2 = clearTimers sessionId c1
             in if throws
                then handleDisconnect rnd sessionId False (modify sessionId (\<lambda>s. s\<lparr>status := ERROR\<rparr>) c2)
                else modify sessionId (\<lambda>s. s\<lparr>ws := Some new_WebSocket\<rparr>) c2))"

text \<open>The socket's \<^verbatim>\<open>'error'\<close> and \<^verbatim>\<open>'close'\<close> listeners, and the reconnect timer's callback.
  A socket whose listeners were removed, or whose session is gone, raises nothing.\<close>

definition on_ws_error :: "rat \<Rightarrow> sid \<Rightarrow> client \<Rightarrow> client" where
  "on_ws_error rnd sessionId c =
     (case activeSessions c sessionId of
        None \<Rightarrow> c
      | Some session \<Rightarrow>
          (let c1 = modify sessionId (\<lambda>s. s\<lparr>status := ERROR\<rparr>) c;
               c2 = (if onError session then emit (Callback ''onError'' sessionId []) c1 else c1);
               c3 = emit (Emit ''error'' sessionId []) c2
           in handleDisconnect rnd sessionId False c3))"

definition on_ws_close :: "rat \<Rightarrow> sid \<Rightarrow> nat \<Rightarrow> client \<Rightarrow> client" where
  "on_ws_close rnd sessionId code c =
     (case activeSessions c sessionId of
        None \<Rightarrow> c
      | Some session \<Rightarrow>
          (let c1 = modify sessionId
                      (\<lambda>s. s\<lparr>status := CLOSED_TEMP,
                              ws := map_option (\<lambda>w. w\<lparr>readyState := WS_CLOSED\<rparr>) (ws s)\<rparr>) c;
               isCleanClose = (code = 1000 \<or> code = 1005)
           in handleDisconnect rnd sessionId isCleanClose c1))"

definition on_reconnect_timer :: "rat \<Rightarrow> bool \<Rightarrow> sid \<Rightarrow> client \<Rightarrow> client" where
  "on_reconnect_timer rnd throws sessionId c =
     (case activeSessions c sessionId of
        None \<Rightarrow> c
      | Some session \<Rightarrow>
          (case reconnectTimer session of
             None \<Rightarrow> c
           | Some delay \<Rightarrow>
               (let c1 = modify sessionId (\<lambda>s. s\<lparr>reconnectTimer := None\<rparr>) c
                in if status session = RECONNECTING then connect rnd throws sessionId c1 else c1)))"

text \<open>What can happen to a session inside the client after a failure: the handlers above, in
  any order.\<close>

datatype client_event =
    WsError rat
  | WsClose rat nat
  | ReconnectTimerFires rat bool
  | HandleDisconnect rat bool
  | ScheduleReconnect rat
  | Connect rat bool

fun client_step :: "sid \<Rightarrow> client_event \<Rightarrow> client \<Rightarrow> client" where
  "client_step sessionId (WsError rnd) c = on_ws_error rnd sessionId c"
| "client_step sessionId (WsClose rnd code) c = on_ws_close rnd sessionId code c"
| "client_step sessionId (ReconnectTimerFires rnd throws) c = on_reconnect_timer rnd throws sessionId c"
| "client_step sessionId (HandleDisconnect rnd clean) c = handleDisconnect rnd sessionId clean c"
| "client_step sessionId (ScheduleReconnect rnd) c = scheduleReconnect rnd sessionId c"
| "client_step sessionId (Connect rnd throws) c = connect rnd throws sessionId c"

fun client_run :: "sid \<Rightarrow> client_event list \<Rightarrow> client \<Rightarrow> client" where
  "client_run sessionId [] c = c"
| "client_run sessionId (e # es) c = client_run sessionId es (client_step sessionId e c)"

text \<open>
  One reconnection attempt that fails: the timer fires, \<^verbatim>\<open>_connect\<close> opens a socket, and
  the connection cannot be established. A \<^verbatim>\<open>ws\<close> socket then raises \<^verbatim>\<open>'error'\<close> and,
  right after it, \<^verbatim>\<open>'close'\<close> with code 1006; both listeners that \<^verbatim>\<open>_connect\<close> attached
  (lines 696 to 719) run, in that order. \<open>r1\<close> and \<open>r2\<close> are what \<^verbatim>\<open>Math.random()\<close> returns
  in the first and in the second.
\<close>

definition failed_attempt :: "rat \<Rightarrow> rat \<Rightarrow> sid \<Rightarrow> client \<Rightarrow> client" where
  "failed_attempt r1 r2 sessionId c =
     on_ws_close r2 sessionId 1006 (on_ws_error r1 sessionId (on_reconnect_timer r1 False sessionId c))"

fun failed_attempts :: "(rat \<times> rat) list \<Rightarrow> sid \<Rightarrow> client \<Rightarrow> client" where
  "failed_attempts [] sessionId c = c"
| "failed_attempts ((r1, r2) # rnds) sessionId c =
     failed_attempts rnds sessionId (failed_attempt r1 r2 sessionId c)"

text \<open>\<^verbatim>\<open>sendMessage\<close> and its callers. The message is the object given; \<^verbatim>\<open>ws.send\<close> throws on a
  socket that is not open, which the \<^verbatim>\<open>catch\<close> turns into \<^verbatim>\<open>false\<close>.\<close>

definition sendMessage :: "sid \<Rightarrow> jval \<Rightarrow> client \<Rightarrow> bool \<times> client" where
  "sendMessage sessionId message c =
     (case activeSessions c sessionId of
        None \<Rightarrow> (False, c)
      | Some session \<Rightarrow>
          if status session \<noteq> OPEN then (False, c)
          else (case ws session of
                  None \<Rightarrow> (False, c)
                | Some w \<Rightarrow>
                    if readyState w \<noteq> WS_OPEN then (False, c)
                    else (case ws_send w message of
                            Inl err \<Rightarrow> (False, c)
                          | Inr w' \<Rightarrow> (True, modify sessionId (\<lambda>s. s\<lparr>ws := Some w'\<rparr>) c))))"

definition sendAudioChunk :: "sid \<Rightarrow> jval \<Rightarrow> client \<Rightarrow> client" where
  "sendAudioChunk sessionId audioBase64 c =
     snd (sendMessage sessionId (JObj [(''user_audio_chunk'', audioBase64)]) c)"

definition isSessionActive :: "sid \<Rightarrow> client \<Rightarrow> bool" where
  "isSessionActive sessionId c =
     (case activeSessions c sessionId of None \<Rightarrow> False | Some session \<Rightarrow> status session = OPEN)"

definition isSessionActiveOrOpening :: "sid \<Rightarrow> client \<Rightarrow> bool" where
  "isSessionActiveOrOpening sessionId c =
     (case activeSessions c sessionId of
        None \<Rightarrow> False
      | Some session \<Rightarrow> status session \<in> set [OPEN, CONNECTING, RECONNECTING])"

fun status_name :: "status \<Rightarrow> string" where
  "status_name CONNECTING = ''CONNECTING''"
| "status_name OPEN = ''OPEN''"
| "status_name ERROR = ''ERROR''"
| "status_name CLOSED_TEMP = ''CLOSED_TEMP''"
| "status_name RECONNECTING = ''RECONNECTING''"
| "status_name CLOSING = ''CLOSING''"
| "status_name CLOSED = ''CLOSED''"

text \<open>
  The forwarding of caller audio in the media-stream handler
  (\<^verbatim>\<open>src/routes/outbound-routes.js\<close>, lines 344 to 419), as far as it touches the client:
  a \<^verbatim>\<open>media\<close> event with a truthy payload is passed to \<^verbatim>\<open>sendAudioChunk\<close> when
  \<^verbatim>\<open>isSessionActiveOrOpening\<close> holds, and only logged otherwise.
\<close>

definition forwardCallerAudio :: "sid \<Rightarrow> jval \<Rightarrow> client \<Rightarrow> client" where
  "forwardCallerAudio sessionId data c =
     (if jprop data ''event'' = Some (JStr ''media'') \<and> truthy (jprop data ''media'')
      then (case jprop data ''media'' of
              None \<Rightarrow> c
            | Some media \<Rightarrow>
                if truthy (jprop media ''payload'')
                then (if isSessionActiveOrOpening sessionId c
                      then sendAudioChunk sessionId (the (jprop media ''payload'')) c
                      else c)
                else c)
      else c)"

text \<open>
  The methods that talk to the store run here without interleaving: each takes the
  client and the store and returns both. \<open>nowMs\<close> is what \<^verbatim>\<open>Date.now()\<close> returns.
\<close>

record exists_info =
  info_exists :: bool
  info_owner :: "pid option"
  info_status :: "jval option"
  info_inMemory :: bool

definition sessionExistsAnywhere :: "sid \<Rightarrow> client \<Rightarrow> store \<Rightarrow> exists_info \<times> store" where
  "sessionExistsAnywhere sessionId c st =
     (case activeSessions c sessionId of
        Some session \<Rightarrow>
          (\<lparr>info_exists = True,
            info_owner = Some (if processId session \<noteq> 0 then processId session else process_pid c),
            info_status = Some (JStr (status_name (status session))),
            info_inMemory = True\<rparr>, st)
      | None \<Rightarrow>
          (case exec (getOutboundSession sessionId) st of (redisData, st1) \<Rightarrow>
           case exec (getSessionOwner sessionId) st1 of (own, st2) \<Rightarrow>
             (case redisData of
                Some d \<Rightarrow>
                  (\<lparr>info_exists = True, info_owner = own,
                    info_status = Some (if truthy (map_of d ''status'') then the (map_of d ''status'')
                                        else JStr ''unknown''),
                    info_inMemory = False\<rparr>, st2)
              | None \<Rightarrow>
                  (\<lparr>info_exists = False, info_owner = None, info_status = None, info_inMemory = False\<rparr>, st2))))"

definition refreshOwnership :: "sid \<Rightarrow> client \<Rightarrow> store \<Rightarrow> store" where
  "refreshOwnership sessionId c st =
     (case activeSessions c sessionId of
        None \<Rightarrow> st
      | Some session \<Rightarrow> snd (exec (updateSessionOwnership sessionId (process_pid c) 30) st))"

definition terminationRequest :: "jobj \<Rightarrow> pid \<Rightarrow> int \<Rightarrow> jobj" where
  "terminationRequest sessionData requester nowMs =
     spread sessionData
       [(''status'', JStr ''terminating''),
        (''terminateRequested'', JBool True),
        (''terminateRequestedBy'', JNum (int requester)),
        (''terminateRequestTime'', JNum nowMs)]"

definition endConversation :: "rat \<Rightarrow> int \<Rightarrow> sid \<Rightarrow> client \<Rightarrow> store \<Rightarrow> client \<times> store" where
  "endConversation rnd nowMs sessionId c st =
     (case activeSessions c sessionId of
        None \<Rightarrow>
          (case sessionExistsAnywhere sessionId c st of (sessionInfo, st1) \<Rightarrow>
             if info_exists sessionInfo
             then (case exec (getOutboundSession sessionId) st1 of (sessionData, st2) \<Rightarrow>
                     (case sessionData of
                        Some d \<Rightarrow>
                          (c, snd (exec (saveOutboundSession sessionId
                                           (terminationRequest d (process_pid c) nowMs) 3600) st2))
                      | None \<Rightarrow> (c, st2)))
             else (c, st1))
      | Some session \<Rightarrow>
          (let c1 = modify sessionId (\<lambda>s. s\<lparr>status := CLOSING\<rparr>) c;
               c2 = clearReconnectTimer sessionId (stopHeartbeat sessionId c1);
               st1 = snd (exec (releaseSessionOwnership sessionId (process_pid c)) st)
           in (case ws session of
                 Some w \<Rightarrow>
                   if readyState w = WS_OPEN \<or> readyState w = WS_CONNECTING
                   then (modify sessionId
                           (\<lambda>s. s\<lparr>ws := Some (ws_close 1000 ConversationEndedByClient w)\<rparr>) c2, st1)
                   else (handleDisconnect rnd sessionId True c2, st1)
               | None \<Rightarrow> (handleDisconnect rnd sessionId True c2, st1))))"

definition terminationAcknowledgement :: "jobj \<Rightarrow> pid \<Rightarrow> int \<Rightarrow> jobj" where
  "terminationAcknowledgement sessionData acknowledger nowMs =
     spread sessionData
       [(''status'', JStr ''closing''),
        (''terminationAcknowledged'', JBool True),
        (''terminationAcknowledgedBy'', JNum (int acknowledger)),
        (''terminationAcknowledgedTime'', JNum nowMs)]"

definition checkForTerminationRequests :: "int \<Rightarrow> sid \<Rightarrow> client \<Rightarrow> store \<Rightarrow> client \<times> store" where
  "checkForTerminationRequests nowMs sessionId c st =
     (case exec (getOutboundSession sessionId) st of (sessionData, st1) \<Rightarrow>
        (case sessionData of
           None \<Rightarrow> (c, st1)
         | Some d \<Rightarrow>
             if truthy (map_of d ''terminateRequested'')
             then
               (let c1 = stopHeartbeat sessionId c;
                    c2 = (case activeSessions c1 sessionId of
                            None \<Rightarrow> c1
                          | Some session \<Rightarrow>
                              (case ws session of
                                 None \<Rightarrow> c1
                               | Some w \<Rightarrow>
                                   modify sessionId
                                     (\<lambda>s. s\<lparr>status := CLOSING,
                                             ws := Some (ws_close 1000
                                                          (TerminationRequestedByProcess
                                                             (map_of d ''terminateRequestedBy'')) w)\<rparr>) c1))
                in (c2, snd (exec (saveOutboundSession sessionId
                                     (terminationAcknowledgement d (process_pid c) nowMs) 3600) st1)))
             else (c, st1)))"

text \<open>
  One firing of the heartbeat interval of \<^verbatim>\<open>_startHeartbeat\<close>. The body pings and arms the
  pong timeout at once; \<^verbatim>\<open>_refreshOwnership\<close> and \<^verbatim>\<open>_checkForTerminationRequests\<close> are
  \<^verbatim>\<open>async\<close> and not awaited, so what they do after their first \<^verbatim>\<open>await\<close> comes after
  the body, in the order they were called.
\<close>

definition heartbeat_tick :: "rat \<Rightarrow> int \<Rightarrow> sid \<Rightarrow> client \<Rightarrow> store \<Rightarrow> client \<times> store" where
  "heartbeat_tick rnd nowMs sessionId c st =
     (case activeSessions c sessionId of
        None \<Rightarrow> (c, st)
      | Some session \<Rightarrow>
          if \<not> heartbeatTimer session then (c, st)
          else (case ws session of
                  None \<Rightarrow> (handleDisconnect rnd sessionId False c, st)
                | Some w \<Rightarrow>
                    if readyState w = WS_OPEN
                    then
                      (let c1 = modify sessionId (\<lambda>s. s\<lparr>ws := Some (w\<lparr>pings := pings w + 1\<rparr>)\<rparr>) c;
                           c2 = clearPongTimeoutTimer sessionId c1;
                           c3 = modify sessionId (\<lambda>s. s\<lparr>pongTimeoutTimer := True\<rparr>) c2;
                           st1 = refreshOwnership sessionId c3 st
                       in checkForTerminationRequests nowMs sessionId c3 st1)
                    else (handleDisconnect rnd sessionId False c, st)))"

text \<open>A session in the reconnect loop after \<open>n\<close> failures, and a session given up.\<close>

definition retrying :: "nat \<Rightarrow> bool \<Rightarrow> sid \<Rightarrow> client \<Rightarrow> bool" where
  "retrying n oc sid c =
     (case activeSessions c sid of
        None \<Rightarrow> False
      | Some s \<Rightarrow> status s = RECONNECTING \<and> reconnectTimer s \<noteq> None \<and> reconnectAttempts s = n \<and> onClose s = oc)"

definition gave_up :: "bool \<Rightarrow> sid \<Rightarrow> client \<Rightarrow> bool" where
  "gave_up oc sid c =
     (activeSessions c sid = None \<and>
      (\<exists>pre. effects c = pre @
          [Emit ''permanently_closed'' sid [JStr ''Max reconnection attempts reached'']] @
          (if oc then [Callback ''onClose'' sid [JNum 1011, JStr ''Max reconnection attempts reached'']]
           else [])))"

text \<open>
  A failure is any event that takes the unclean path through \<^verbatim>\<open>_handleDisconnect\<close>: the
  socket's \<^verbatim>\<open>'error'\<close>, or its \<^verbatim>\<open>'close'\<close> with a code other than 1000 and 1005. Between
  failures the reconnect timer may fire and open a new socket. \<open>in_loop\<close> is a session
  that is neither closing nor closed, with its failure counter at \<open>n\<close>.
\<close>

fun is_failure :: "client_event \<Rightarrow> bool" where
  "is_failure (WsError rnd) = True"
| "is_failure (WsClose rnd code) = (code \<noteq> 1000 \<and> code \<noteq> 1005)"
| "is_failure e = False"

fun is_failure_or_retry :: "client_event \<Rightarrow> bool" where
  "is_failure_or_retry (WsError rnd) = True"
| "is_failure_or_retry (WsClose rnd code) = (code \<noteq> 1000 \<and> code \<noteq> 1005)"
| "is_failure_or_retry (ReconnectTimerFires rnd throws) = (\<not> throws)"
| "is_failure_or_retry e = False"

definition in_loop :: "nat \<Rightarrow> bool \<Rightarrow> sid \<Rightarrow> client \<Rightarrow> bool" where
  "in_loop n oc sid c =
     (case activeSessions c sid of
        None \<Rightarrow> False
      | Some s \<Rightarrow> status s \<noteq> CLOSING \<and> status s \<noteq> CLOSED \<and> reconnectAttempts s = n \<and> onClose s = oc)"

section \<open>The media-stream coordinator (setupWebSocketServer)\<close>

text \<open>
  From \<^verbatim>\<open>src/routes/outbound-routes.js\<close>, lines 70 to 441: the state one accepted
  media-stream connection for \<open>sessionId\<close> works on. \<open>twilio\<close> is the caller-facing socket
  \<^verbatim>\<open>ws\<close>, \<open>callInfo\<close> is \<^verbatim>\<open>ws.callInfo\<close>, \<open>channels\<close> are the channels the subscriber
  client listens on, \<open>elevenlabs\<close> is this process's AI client and \<open>sessionStore\<close> the
  shared store. A message on a channel or on the socket is a string; it is given as what
  \<^verbatim>\<open>JSON.parse\<close> makes of it, \<open>None\<close> where \<^verbatim>\<open>JSON.parse\<close> throws.
\<close>

definition MAX_SERVER_BUFFER_SIZE :: nat where "MAX_SERVER_BUFFER_SIZE = 20"

definition AUDIO_CHANNEL_PREFIX :: string where "AUDIO_CHANNEL_PREFIX = ''elevenlabs-to-twilio:''"

record server =
  twilio :: websocket
  callInfo :: "jobj option"
  serverAudioBuffers :: "sid \<Rightarrow> jval list option"
  activeSubscriptions :: "sid \<Rightarrow> bool"
  channels :: "string \<Rightarrow> bool"
  elevenlabs :: client
  sessionStore :: store

definition streamSid_of :: "server \<Rightarrow> jval option" where
  "streamSid_of srv = (case callInfo srv of None \<Rightarrow> None | Some ci \<Rightarrow> map_of ci ''streamSid'')"

text \<open>The \<^verbatim>\<open>twilioMediaMessage\<close> object; \<^verbatim>\<open>JSON.stringify\<close> leaves out a payload that is
  \<^verbatim>\<open>undefined\<close>.\<close>

definition twilioMediaMessage :: "jval \<Rightarrow> jval option \<Rightarrow> jval" where
  "twilioMediaMessage streamSid payload =
     JObj [(''event'', JStr ''media''),
           (''streamSid'', streamSid),
           (''media'', JObj (case payload of None \<Rightarrow> [] | Some p \<Rightarrow> [(''payload'', p)]))]"

definition push_bounded :: "jval list \<Rightarrow> jval \<Rightarrow> jval list" where
  "push_bounded buf data =
     (let buf' = buf @ [data] in if length buf' > MAX_SERVER_BUFFER_SIZE then tl buf' else buf')"

definition messageHandler :: "sid \<Rightarrow> jval option \<Rightarrow> string \<Rightarrow> server \<Rightarrow> server" where
  "messageHandler sessionId message channel srv =
     (if channel = AUDIO_CHANNEL_PREFIX @ sessionId
      then (case message of
              None \<Rightarrow> srv
            | Some data \<Rightarrow>
                if data = JNull then srv
                else if truthy (jprop data ''audioBase64'') \<and> readyState (twilio srv) = WS_OPEN
                        \<and> truthy (streamSid_of srv)
                then (case ws_send (twilio srv)
                             (twilioMediaMessage (the (streamSid_of srv)) (jprop data ''audioBase64'')) of
                        Inl err \<Rightarrow> srv
                      | Inr w \<Rightarrow> srv\<lparr>twilio := w\<rparr>)
                else if \<not> truthy (streamSid_of srv)
                then (let buf = (case serverAudioBuffers srv sessionId of None \<Rightarrow> [] | Some b \<Rightarrow> b)
                      in srv\<lparr>serverAudioBuffers :=
                               (serverAudioBuffers srv)(sessionId \<mapsto> push_bounded buf data)\<rparr>)
                else srv)
      else srv)"

text \<open>
  The test tone of \<^verbatim>\<open>testAudioPlayback\<close>: 1600 bytes alternating \<^verbatim>\<open>0x55\<close> and \<^verbatim>\<open>0xAA\<close>,
  in base64. The function is \<^verbatim>\<open>async\<close> but sends before its first \<^verbatim>\<open>await\<close>, so the
  tone goes out before the buffered chunks. The socket it finds among the server's
  clients is taken to be this connection's.
\<close>

definition testTone :: string where
  "testTone = concat (replicate 266 ''VapVqlWq'') @ ''VapVqg==''"

definition testAudioPlayback :: "jval \<Rightarrow> websocket \<Rightarrow> websocket" where
  "testAudioPlayback streamSid w =
     (case ws_send w (twilioMediaMessage streamSid (Some (JStr testTone))) of
        Inl err \<Rightarrow> w
      | Inr w' \<Rightarrow> w')"

text \<open>
  The loop over the buffered chunks. A failing \<^verbatim>\<open>send\<close> breaks out of the loop. Reading
  \<^verbatim>\<open>chunk.audioBase64\<close> of \<^verbatim>\<open>null\<close> throws outside the inner \<^verbatim>\<open>try\<close>, which leaves the
  handler before the buffer is deleted: the first component is then \<open>False\<close>.
\<close>

fun send_buffered :: "jval \<Rightarrow> jval list \<Rightarrow> websocket \<Rightarrow> bool \<times> websocket" where
  "send_buffered streamSid [] w = (True, w)"
| "send_buffered streamSid (chunk # rest) w =
     (if chunk = JNull then (False, w)
      else (case ws_send w (twilioMediaMessage streamSid (jprop chunk ''audioBase64'')) of
              Inl err \<Rightarrow> (True, w)
            | Inr w' \<Rightarrow> send_buffered streamSid rest w'))"

definition on_twilio_message :: "sid \<Rightarrow> jval option \<Rightarrow> server \<Rightarrow> server" where
  "on_twilio_message sessionId message srv =
     (case message of
        None \<Rightarrow> srv
      | Some data \<Rightarrow>
          if data = JNull then srv
          else if jprop data ''event'' = Some (JStr ''start'') \<and> truthy (jprop data ''start'')
                  \<and> truthy (jprop (the (jprop data ''start'')) ''streamSid'')
          then (let streamSid = the (jprop (the (jprop data ''start'')) ''streamSid'') in
                case callInfo srv of
                  None \<Rightarrow> srv
                | Some ci \<Rightarrow>
                    (let srv1 = srv\<lparr>callInfo := Some (AList.update ''streamSid'' streamSid ci)\<rparr>;
                         srv2 = srv1\<lparr>twilio := testAudioPlayback streamSid (twilio srv1)\<rparr>
                     in case serverAudioBuffers srv2 sessionId of
                          None \<Rightarrow> srv2
                        | Some bufferedChunks \<Rightarrow>
                            (case send_buffered streamSid bufferedChunks (twilio srv2) of
                               (finished, w) \<Rightarrow>
                                 if finished
                                 then srv2\<lparr>twilio := w,
                                           serverAudioBuffers := (serverAudioBuffers srv2)(sessionId := None)\<rparr>
                                 else srv2\<lparr>twilio := w\<rparr>)))
          else if jprop data ''event'' = Some (JStr ''media'') \<and> truthy (jprop data ''media'')
          then srv\<lparr>elevenlabs := forwardCallerAudio sessionId data (elevenlabs srv)\<rparr>
          else srv)"

text \<open>The \<^verbatim>\<open>'error'\<close> listener only logs. The \<^verbatim>\<open>'close'\<close> listener logs and removes the
  subscription.\<close>

definition on_twilio_error :: "sid \<Rightarrow> server \<Rightarrow> server" where
  "on_twilio_error sessionId srv = srv"

definition on_twilio_close :: "sid \<Rightarrow> nat \<Rightarrow> string \<Rightarrow> server \<Rightarrow> server" where
  "on_twilio_close sessionId code reason srv =
     (if activeSubscriptions srv sessionId
      then srv\<lparr>channels := (channels srv)(AUDIO_CHANNEL_PREFIX @ sessionId := False),
               activeSubscriptions := (activeSubscriptions srv)(sessionId := False)\<rparr>
      else srv)"

text \<open>
  The envelope that \<^verbatim>\<open>handleAudioMessage\<close> (\<^verbatim>\<open>src/unnamed/part_006\<close>, lines 107 to 128)
  and \<^verbatim>\<open>synthesizeResponseSpeech\<close> build for the relay channel, with the sequence number
  taken from \<^verbatim>\<open>sequenceCounters\<close> and the counter advanced.
\<close>

definition next_sequence :: "sid \<Rightarrow> (sid \<Rightarrow> nat option) \<Rightarrow> nat \<times> (sid \<Rightarrow> nat option)" where
  "next_sequence sessionId sequenceCounters =
     (let sequenceNumber = (case sequenceCounters sessionId of None \<Rightarrow> 0 | Some n \<Rightarrow> n)
      in (sequenceNumber, sequenceCounters(sessionId \<mapsto> sequenceNumber + 1)))"

definition directAudioEnvelope :: "string \<Rightarrow> int \<Rightarrow> pid \<Rightarrow> nat \<Rightarrow> jval" where
  "directAudioEnvelope audioBase64 nowMs p sequenceNumber =
     JObj [(''audioBase64'', JStr audioBase64),
           (''source'', JStr ''direct-audio''),
           (''timestamp'', JNum nowMs),
           (''processId'', JNum (int p)),
           (''format'', JStr ''ulaw''),
           (''sampleRate'', JNum 8000),
           (''sequenceNumber'', JNum (int sequenceNumber)),
           (''track'', JStr ''outbound''),
           (''contentType'', JStr ''audio/x-mulaw'')]"

definition ttsEnvelope :: "string \<Rightarrow> int \<Rightarrow> pid \<Rightarrow> nat \<Rightarrow> jval" where
  "ttsEnvelope audioBase64 nowMs p sequenceNumber =
     JObj [(''audioBase64'', JStr audioBase64),
           (''source'', JStr ''tts-synthesis''),
           (''timestamp'', JNum nowMs),
           (''processId'', JNum (int p)),
           (''format'', JStr ''ulaw''),
           (''sampleRate'', JNum 8000),
           (''sequenceNumber'', JNum (int sequenceNumber))]"

section \<open>Concrete states used in the examples\<close>

definition store0 :: store where
  "store0 = \<lparr>owners = (\<lambda>k. None), sessions = (\<lambda>k. None), clock = 0, up = True\<rparr>"

definition world0 :: world where
  "world0 = \<lparr>redis = store0, running = (\<lambda>p. []), told = (\<lambda>p s. None), returned = []\<rparr>"


definition renew_race :: "event list" where
  "renew_race =
     [Call 1 (Acquire ''s1'' 30), Step 1 0,
      Tick 20,
      Call 1 (Renew ''s1'' 30), Step 1 0,
      Tick 10,
      Call 2 (Acquire ''s1'' 30), Step 2 0,
      Tick 10,
      Step 1 0]"

definition lapsed_renew :: "event list" where
  "lapsed_renew =
     [Call 1 (Acquire ''s1'' 30), Step 1 0,
      Tick 20,
      Call 1 (Renew ''s1'' 30), Step 1 0,
      Tick 10,
      Step 1 0,
      Call 2 (Acquire ''s1'' 30), Step 2 0]"


definition store_seen_by_renew :: store where
  "store_seen_by_renew = store0\<lparr>owners := (owners store0)(''s1'' \<mapsto> (1, 30)), clock := 20\<rparr>"

definition store_taken_over :: store where
  "store_taken_over = store0\<lparr>owners := (owners store0)(''s1'' \<mapsto> (2, 60)), clock := 40\<rparr>"

definition session1 :: session where
  "session1 = \<lparr>ws = Some (new_WebSocket\<lparr>readyState := WS_OPEN\<rparr>), status = OPEN,
                onMessage = True, onError = True, onClose = True, onReconnecting = False,
                reconnectTimer = None, heartbeatTimer = True, pongTimeoutTimer = False,
                reconnectAttempts = 0, processId = 7\<rparr>"

definition client1 :: client where
  "client1 = \<lparr>activeSessions = (\<lambda>k. None)(''s1'' \<mapsto> session1), process_pid = 7, effects = []\<rparr>"


definition client_reconnecting :: client where
  "client_reconnecting =
     client1\<lparr>activeSessions := (\<lambda>k. None)(''s1'' \<mapsto>
        session1\<lparr>status := RECONNECTING, reconnectAttempts := 1, reconnectTimer := Some 1000,
                 heartbeatTimer := False\<rparr>)\<rparr>"

definition client_other :: client where
  "client_other = \<lparr>activeSessions = (\<lambda>k. None), process_pid = 9, effects = []\<rparr>"

definition record_completed :: jobj where
  "record_completed =
     [(''callSid'', JStr ''CA1''), (''status'', JStr ''completed''), (''to'', JStr ''+15550100'')]"

definition store_completed_call :: store where
  "store_completed_call =
     store0\<lparr>sessions := (sessions store0)(''s1'' \<mapsto> (record_completed, 86500)),
            owners := (owners store0)(''s1'' \<mapsto> (7, 130)), clock := 100\<rparr>"

definition server0 :: server where
  "server0 =
     \<lparr>twilio = new_WebSocket\<lparr>readyState := WS_OPEN\<rparr>,
      callInfo = Some [(''callSid'', JStr ''CA1''), (''status'', JStr ''in-progress'')],
      serverAudioBuffers = (\<lambda>k. None),
      activeSubscriptions = (\<lambda>k. False)(''s1'' := True),
      channels = (\<lambda>k. False)(''elevenlabs-to-twilio:s1'' := True),
      elevenlabs = client1,
      sessionStore = store0\<lparr>sessions := (sessions store0)(''s1'' \<mapsto>
                        ([(''callSid'', JStr ''CA1''), (''status'', JStr ''in-progress'')], 3600))\<rparr>\<rparr>"

definition start_event :: jval where
  "start_event = JObj [(''event'', JStr ''start''), (''start'', JObj [(''streamSid'', JStr ''MZ1'')])]"

definition server_ready :: server where
  "server_ready = server0\<lparr>callInfo := Some [(''callSid'', JStr ''CA1''), (''status'', JStr ''in-progress''),
                                             (''streamSid'', JStr ''MZ1'')]\<rparr>"

section \<open>Registry calls run with no other command in between\<close>

lemma exec_acquire:
  "exec (acquireSessionOwnership s p ttl) st =
     (if \<not> up st then (False, st)
      else if live (clock st) (owners st s) \<noteq> None then (False, st)
      else (True, st\<lparr>owners := (owners st)(s \<mapsto> (p, clock st + ttl))\<rparr>))"
  by (simp add: acquireSessionOwnership_def redis_set_owner_nx_def redis_get_owner_def)

lemma exec_update:
  "exec (updateSessionOwnership s p ttl) st =
     (if \<not> up st then (False, st)
      else case live (clock st) (owners st s) of
             None \<Rightarrow> exec (acquireSessionOwnership s p ttl) st
           | Some owner \<Rightarrow>
               if owner = p then (True, st\<lparr>owners := (owners st)(s \<mapsto> (p, clock st + ttl))\<rparr>)
               else (False, st))"
  by (simp add: updateSessionOwnership_def redis_get_owner_def redis_expire_owner_def
      split: option.splits)

section \<open>Interleaved Registry calls\<close>

lemma step_acquire:
  "step (acquireSessionOwnership s p t) st =
    (if \<not> up st then (Return False, st)
     else if live (clock st) (owners st s) \<noteq> None then (logStage s, st)
     else (Return True, st\<lparr>owners := (owners st)(s \<mapsto> (p, clock st + t))\<rparr>))"
  by (simp add: acquireSessionOwnership_def redis_set_owner_nx_def logStage_def)

lemma step_log: "step (logStage s) st = (Return False, st)"
  by (simp add: logStage_def redis_get_owner_def)

lemma step_update:
  "step (updateSessionOwnership s p t) st =
    (if \<not> up st then (Return False, st)
     else case live (clock st) (owners st s) of
        None \<Rightarrow> (acquireSessionOwnership s p t, st)
      | Some q \<Rightarrow> if q = p then (expireStage s t, st) else (Return False, st))"
  by (simp add: updateSessionOwnership_def redis_get_owner_def expireStage_def split: option.splits)

lemma step_expire:
  "step (expireStage s t) st =
    (if \<not> up st then (Return False, st)
     else case live (clock st) (owners st s) of
        None \<Rightarrow> (Return True, st)
      | Some q \<Rightarrow> (Return True, st\<lparr>owners := (owners st)(s \<mapsto> (q, clock st + t))\<rparr>))"
  by (simp add: expireStage_def redis_expire_owner_def split: option.splits)

lemma step_release:
  "step (releaseSessionOwnership s p) st =
    (if \<not> up st then (Return False, st)
     else case live (clock st) (owners st s) of
        None \<Rightarrow> (Return True, st)
      | Some q \<Rightarrow> if q = p then (delStage s, st) else (Return False, st))"
  by (simp add: releaseSessionOwnership_def redis_get_owner_def delStage_def split: option.splits)

lemma step_del:
  "step (delStage s) st =
    (if \<not> up st then (Return False, st)
     else (Return True, st\<lparr>owners := (owners st)(s := None)\<rparr>))"
  by (simp add: delStage_def redis_del_owner_def)

lemma is_Return_simps [simp]:
  "is_Return (Return b) = Some b"
  "is_Return (logStage s) = None"
  "is_Return (expireStage s t) = None"
  "is_Return (delStage s) = None"
  "is_Return (acquireSessionOwnership s p t) = None"
  by (simp_all add: is_Return_def logStage_def expireStage_def delStage_def acquireSessionOwnership_def)

lemma live_None [simp]: "live now None = None"
  by (simp add: live_def)

lemma live_Some [simp]: "live now (Some (q, d)) = (if now < d then Some q else None)"
  by (simp add: live_def)

lemma stale_write_simps [simp]:
  "stale_write p (acquireSessionOwnership s q t) st = False"
  "stale_write p (updateSessionOwnership s q t) st = False"
  "stale_write p (releaseSessionOwnership s q) st = False"
  "stale_write p (logStage s) st = False"
  "stale_write p (expireStage s t) st = (up st \<and> live (clock st) (owners st s) \<noteq> Some p)"
  "stale_write p (delStage s) st =
     (up st \<and> (case live (clock st) (owners st s) of None \<Rightarrow> False | Some q \<Rightarrow> q \<noteq> p))"
  by (simp_all add: acquireSessionOwnership_def updateSessionOwnership_def
      releaseSessionOwnership_def logStage_def expireStage_def delStage_def)

lemma step_outcome:
  assumes "at_point p c pr" and "\<not> stale_write p pr st"
  shows "\<exists>out. outcome_of p c st (step pr st) out"
proof (cases c)
  case (Acquire s t)
  with assms(1) consider "pr = acquireSessionOwnership s p t" | "pr = logStage s"
    by (auto simp: at_point_def)
  then show ?thesis
  proof cases
    case 1
    show ?thesis
    proof (cases "up st")
      case False
      with 1 have "outcome_of p c st (step pr st) Fails" by (simp add: step_acquire)
      then show ?thesis ..
    next
      case True
      show ?thesis
      proof (cases "live (clock st) (owners st s)")
        case None
        with 1 True Acquire have "outcome_of p c st (step pr st) (Granted s t)"
          by (simp add: step_acquire)
        then show ?thesis ..
      next
        case (Some q)
        with 1 True Acquire have "outcome_of p c st (step pr st) Continues"
          by (simp add: step_acquire at_point_def)
        then show ?thesis ..
      qed
    qed
  next
    case 2
    then have "outcome_of p c st (step pr st) Fails" by (simp add: step_log)
    then show ?thesis ..
  qed
next
  case (Renew s t)
  with assms(1) consider "pr = updateSessionOwnership s p t" | "pr = acquireSessionOwnership s p t"
    | "pr = logStage s" | "pr = expireStage s t"
    by (auto simp: at_point_def)
  then show ?thesis
  proof cases
    case 1
    show ?thesis
    proof (cases "up st")
      case False
      with 1 have "outcome_of p c st (step pr st) Fails" by (simp add: step_update)
      then show ?thesis ..
    next
      case True
      show ?thesis
      proof (cases "live (clock st) (owners st s)")
        case None
        with 1 True Renew have "outcome_of p c st (step pr st) Continues"
          by (simp add: step_update at_point_def)
        then show ?thesis ..
      next
        case (Some q)
        show ?thesis
        proof (cases "q = p")
          case True
          with 1 \<open>up st\<close> Some Renew have "outcome_of p c st (step pr st) Continues"
            by (simp add: step_update at_point_def)
          then show ?thesis ..
        next
          case False
          with 1 \<open>up st\<close> Some have "outcome_of p c st (step pr st) Fails"
            by (simp add: step_update)
          then show ?thesis ..
        qed
      qed
    qed
  next
    case 2
    show ?thesis
    proof (cases "up st")
      case False
      with 2 have "outcome_of p c st (step pr st) Fails" by (simp add: step_acquire)
      then show ?thesis ..
    next
      case True
      show ?thesis
      proof (cases "live (clock st) (owners st s)")
        case None
        with 2 True Renew have "outcome_of p c st (step pr st) (Granted s t)"
          by (simp add: step_acquire)
        then show ?thesis ..
      next
        case (Some q)
        with 2 True Renew have "outcome_of p c st (step pr st) Continues"
          by (simp add: step_acquire at_point_def)
        then show ?thesis ..
      qed
    qed
  next
    case 3
    then have "outcome_of p c st (step pr st) Fails" by (simp add: step_log)
    then show ?thesis ..
  next
    case 4
    show ?thesis
    proof (cases "up st")
      case False
      with 4 have "outcome_of p c st (step pr st) Fails" by (simp add: step_expire)
      then show ?thesis ..
    next
      case True
      with 4 assms(2) have "live (clock st) (owners st s) = Some p" by simp
      with 4 True Renew have "outcome_of p c st (step pr st) (Granted s t)"
        by (simp add: step_expire)
      then show ?thesis ..
    qed
  qed
next
  case (Release s)
  with assms(1) consider "pr = releaseSessionOwnership s p" | "pr = delStage s"
    by (auto simp: at_point_def)
  then show ?thesis
  proof cases
    case 1
    show ?thesis
    proof (cases "up st")
      case False
      with 1 have "outcome_of p c st (step pr st) Fails" by (simp add: step_release)
      then show ?thesis ..
    next
      case True
      show ?thesis
      proof (cases "live (clock st) (owners st s)")
        case None
        with 1 True Release have "outcome_of p c st (step pr st) (Absent s)"
          by (simp add: step_release)
        then show ?thesis ..
      next
        case (Some q)
        show ?thesis
        proof (cases "q = p")
          case True
          with 1 \<open>up st\<close> Some Release have "outcome_of p c st (step pr st) Continues"
            by (simp add: step_release at_point_def)
          then show ?thesis ..
        next
          case False
          with 1 \<open>up st\<close> Some have "outcome_of p c st (step pr st) Fails"
            by (simp add: step_release)
          then show ?thesis ..
        qed
      qed
    qed
  next
    case 2
    show ?thesis
    proof (cases "up st")
      case False
      with 2 have "outcome_of p c st (step pr st) Fails" by (simp add: step_del)
      then show ?thesis ..
    next
      case True
      with 2 assms(2) have "live (clock st) (owners st s) \<in> {None, Some p}"
        by (auto split: option.splits)
      with 2 True Release have "outcome_of p c st (step pr st) (Deleted s)"
        by (simp add: step_del)
      then show ?thesis ..
    qed
  qed
qed

lemma agree_tick: "agree st tld \<Longrightarrow> agree (st\<lparr>clock := clock st + d\<rparr>) tld"
  by (simp add: agree_def)

lemma agree_absent:
  assumes "agree st tld" and "live (clock st) (owners st s) = None"
  shows "agree st (tld(p := (tld p)(s := None)))"
  unfolding agree_def
proof (intro allI impI)
  fix p' s' d assume d: "clock st < d"
  with assms(1) have a: "(tld p' s' = Some d) = (owners st s' = Some (p', d))"
    by (simp add: agree_def)
  show "((tld(p := (tld p)(s := None))) p' s' = Some d) = (owners st s' = Some (p', d))"
  proof (cases "p' = p \<and> s' = s")
    case True
    with assms(2) d have "owners st s' \<noteq> Some (p', d)" by auto
    with True show ?thesis by simp
  next
    case False
    with a show ?thesis by auto
  qed
qed

lemma agree_granted:
  assumes "agree st tld" and "live (clock st) (owners st s) \<in> {None, Some p}"
  shows "agree (st\<lparr>owners := (owners st)(s \<mapsto> (p, clock st + t))\<rparr>) (tld(p := (tld p)(s \<mapsto> clock st + t)))"
  unfolding agree_def
proof (intro allI impI)
  fix p' s' d
  assume "clock (st\<lparr>owners := (owners st)(s \<mapsto> (p, clock st + t))\<rparr>) < d"
  then have d: "clock st < d" by simp
  with assms(1) have a: "(tld p' s' = Some d) = (owners st s' = Some (p', d))"
    by (simp add: agree_def)
  show "((tld(p := (tld p)(s \<mapsto> clock st + t))) p' s' = Some d)
        = (owners (st\<lparr>owners := (owners st)(s \<mapsto> (p, clock st + t))\<rparr>) s' = Some (p', d))"
  proof (cases "s' = s")
    case False
    with a show ?thesis by auto
  next
    case True
    show ?thesis
    proof (cases "p' = p")
      case True
      with \<open>s' = s\<close> show ?thesis by auto
    next
      case False
      with assms(2) d have "owners st s \<noteq> Some (p', d)" by auto
      with a True False show ?thesis by auto
    qed
  qed
qed

lemma agree_deleted:
  assumes "agree st tld" and "live (clock st) (owners st s) \<in> {None, Some p}"
  shows "agree (st\<lparr>owners := (owners st)(s := None)\<rparr>) (tld(p := (tld p)(s := None)))"
  unfolding agree_def
proof (intro allI impI)
  fix p' s' d
  assume "clock (st\<lparr>owners := (owners st)(s := None)\<rparr>) < d"
  then have d: "clock st < d" by simp
  with assms(1) have a: "(tld p' s' = Some d) = (owners st s' = Some (p', d))"
    by (simp add: agree_def)
  show "((tld(p := (tld p)(s := None))) p' s' = Some d)
        = (owners (st\<lparr>owners := (owners st)(s := None)\<rparr>) s' = Some (p', d))"
  proof (cases "s' = s")
    case False
    with a show ?thesis by auto
  next
    case True
    show ?thesis
    proof (cases "p' = p")
      case True
      with \<open>s' = s\<close> show ?thesis by auto
    next
      case False
      with assms(2) d have "owners st s \<noteq> Some (p', d)" by auto
      with a True False show ?thesis by auto
    qed
  qed
qed

lemma set_drop_nth: "set (drop_nth i xs) \<subseteq> set xs"
  unfolding drop_nth_def using set_take_subset [of i xs] set_drop_subset [of "Suc i" xs] by auto

lemma points_ok_call: "points_ok w \<Longrightarrow> points_ok (apply_event (Call p c) w)"
  by (cases c) (auto simp: points_ok_def at_point_def)

lemma Inv_step:
  assumes inv: "Inv w" and ns: "\<not> stale (Step p i) w"
  shows "Inv (apply_event (Step p i) w)"
proof (cases "length (running w p) \<le> i")
  case True
  with inv show ?thesis by simp
next
  case False
  then have i: "i < length (running w p)" by simp
  obtain c pr where cpr: "running w p ! i = (c, pr)" by (cases "running w p ! i")
  with i have mem: "(c, pr) \<in> set (running w p)" by (metis nth_mem)
  from inv have ag: "agree (redis w) (told w)" and pk: "points_ok w" by (simp_all add: Inv_def)
  from pk mem have pt: "at_point p c pr" by (simp add: points_ok_def)
  from ns i cpr have "\<not> stale_write p pr (redis w)" by simp
  from step_outcome [OF pt this] obtain out where out: "outcome_of p c (redis w) (step pr (redis w)) out" ..
  obtain pr' st' where st: "step pr (redis w) = (pr', st')" by (cases "step pr (redis w)")
  have drop_ok: "\<And>w'. running w' = (running w)(p := drop_nth i (running w p)) \<Longrightarrow> points_ok w'"
    using pk set_drop_nth [of i "running w p"] by (auto simp: points_ok_def)
  show ?thesis
  proof (cases out)
    case Continues
    with out st have 1: "st' = redis w" "is_Return pr' = None" "at_point p c pr'" by simp_all
    have "points_ok (apply_event (Step p i) w)"
      using pk 1 i cpr st set_update_subset_insert [of "running w p" i "(c, pr')"]
      by (auto simp: points_ok_def)
    moreover have "agree (redis (apply_event (Step p i) w)) (told (apply_event (Step p i) w))"
      using ag 1 i cpr st by simp
    ultimately show ?thesis by (simp add: Inv_def)
  next
    case Fails
    with out st have 1: "st' = redis w" "pr' = Return False" by simp_all
    have "points_ok (apply_event (Step p i) w)"
      by (rule drop_ok) (use 1 i cpr st in simp)
    moreover have "agree (redis (apply_event (Step p i) w)) (told (apply_event (Step p i) w))"
      using ag 1 i cpr st by simp
    ultimately show ?thesis by (simp add: Inv_def)
  next
    case (Absent s)
    with out st have 1: "st' = redis w" "pr' = Return True" "c = Release s"
      "live (clock (redis w)) (owners (redis w) s) = None" by simp_all
    have "points_ok (apply_event (Step p i) w)"
      by (rule drop_ok) (use 1 i cpr st in simp)
    moreover have "agree (redis (apply_event (Step p i) w)) (told (apply_event (Step p i) w))"
      using agree_absent [OF ag 1(4), of p] 1 i cpr st by simp
    ultimately show ?thesis by (simp add: Inv_def)
  next
    case (Granted s t)
    with out st have 1: "pr' = Return True" "c = Acquire s t \<or> c = Renew s t"
      "live (clock (redis w)) (owners (redis w) s) \<in> {None, Some p}"
      "st' = (redis w)\<lparr>owners := (owners (redis w))(s \<mapsto> (p, clock (redis w) + t))\<rparr>" by simp_all
    have "points_ok (apply_event (Step p i) w)"
      by (rule drop_ok) (use 1 i cpr st in simp)
    moreover have "agree (redis (apply_event (Step p i) w)) (told (apply_event (Step p i) w))"
      using agree_granted [OF ag 1(3), of t] 1 i cpr st by auto
    ultimately show ?thesis by (simp add: Inv_def)
  next
    case (Deleted s)
    with out st have 1: "pr' = Return True" "c = Release s"
      "live (clock (redis w)) (owners (redis w) s) \<in> {None, Some p}"
      "st' = (redis w)\<lparr>owners := (owners (redis w))(s := None)\<rparr>" by simp_all
    have "points_ok (apply_event (Step p i) w)"
      by (rule drop_ok) (use 1 i cpr st in simp)
    moreover have "agree (redis (apply_event (Step p i) w)) (told (apply_event (Step p i) w))"
      using agree_deleted [OF ag 1(3)] 1 i cpr st by simp
    ultimately show ?thesis by (simp add: Inv_def)
  qed
qed

lemma Inv_event:
  assumes "Inv w" and "\<not> stale e w"
  shows "Inv (apply_event e w)"
proof (cases e)
  case (Call p c)
  with assms(1) points_ok_call [of w p c] show ?thesis by (simp add: Inv_def)
next
  case (Step p i)
  with assms Inv_step show ?thesis by blast
next
  case (Tick d)
  with assms(1) agree_tick [of "redis w" "told w" d] show ?thesis
    by (simp add: Inv_def points_ok_def)
qed



lemma agree_holder:
  assumes "agree st tld"
  shows "(case tld p s of None \<Rightarrow> False | Some d \<Rightarrow> clock st < d) = (live (clock st) (owners st s) = Some p)"
proof
  assume "case tld p s of None \<Rightarrow> False | Some d \<Rightarrow> clock st < d"
  then obtain d where d: "tld p s = Some d" "clock st < d" by (auto split: option.splits)
  with assms have "owners st s = Some (p, d)" by (simp add: agree_def)
  with d show "live (clock st) (owners st s) = Some p" by simp
next
  assume "live (clock st) (owners st s) = Some p"
  then obtain d where d: "owners st s = Some (p, d)" "clock st < d"
    by (auto simp: live_def split: option.splits if_splits)
  with assms have "tld p s = Some d" by (simp add: agree_def)
  with d show "case tld p s of None \<Rightarrow> False | Some d \<Rightarrow> clock st < d" by simp
qed



lemmas race_evals = world0_def store0_def holds_def lease_owner_def is_Return_def drop_nth_def
  acquireSessionOwnership_def updateSessionOwnership_def releaseSessionOwnership_def
  redis_get_owner_def redis_set_owner_nx_def redis_expire_owner_def redis_del_owner_def



text \<open>
  A stale \<^verbatim>\<open>EXPIRE\<close> does the same harm. In \<open>renew_race\<close> the \<^verbatim>\<open>EXPIRE\<close> of process 1
  lands on the lease that process 2 has taken; in \<open>lapsed_renew\<close> it lands on no lease at
  all, process 1 is told it holds the lease all the same, and process 2 then acquires
  it. Either way two processes count themselves holder at once.
\<close>

lemma stale_expire_two_holders:
  "stale (Step 1 0) (run (take 9 renew_race) world0)
   \<and> holds (run renew_race world0) 1 ''s1'' \<and> holds (run renew_race world0) 2 ''s1''
   \<and> stale (Step 1 0) (run (take 6 lapsed_renew) world0)
   \<and> lease_owner (run (take 7 lapsed_renew) world0) ''s1'' = None
   \<and> holds (run (take 7 lapsed_renew) world0) 1 ''s1''
   \<and> holds (run lapsed_renew world0) 1 ''s1'' \<and> holds (run lapsed_renew world0) 2 ''s1''"
  by (simp add: renew_race_def lapsed_renew_def race_evals)

text \<open>
  Neither kind of stale write can be allowed. In a run that had no stale write so far,
  the first stale write of a renew (asking for a positive TTL) or of a release leaves a
  process counting itself holder of a lease that the store does not record as its own.
\<close>

lemma stale_write_breaks_agreement:
  assumes inv: "Inv w" and st: "stale (Step p i) w"
    and pos: "\<forall>s. fst (running w p ! i) \<noteq> Renew s 0"
  shows "\<exists>q s. holds (apply_event (Step p i) w) q s
               \<and> lease_owner (apply_event (Step p i) w) s \<noteq> Some q"
proof -
  from st have i: "i < length (running w p)" by simp
  obtain c pr where cpr: "running w p ! i = (c, pr)" by (cases "running w p ! i")
  with i have mem: "(c, pr) \<in> set (running w p)" by (metis nth_mem)
  from inv have ag: "agree (redis w) (told w)" and pk: "points_ok w" by (simp_all add: Inv_def)
  from pk mem have pt: "at_point p c pr" by (simp add: points_ok_def)
  from st cpr have sw: "stale_write p pr (redis w)" by simp
  from pt sw consider s t where "c = Renew s t" "pr = expireStage s t"
    | s where "c = Release s" "pr = delStage s"
    by (cases c) (auto simp: at_point_def)
  then show ?thesis
  proof cases
    case 1
    with pos cpr have t: "0 < t" by (cases t) auto
    from 1 sw have u: "up (redis w)" and l: "live (clock (redis w)) (owners (redis w) s) \<noteq> Some p"
      by simp_all
    have "holds (apply_event (Step p i) w) p s
          \<and> lease_owner (apply_event (Step p i) w) s \<noteq> Some p"
      using 1 i cpr u l t
      by (auto simp: step_expire holds_def lease_owner_def split: option.splits)
    then show ?thesis by blast
  next
    case 2
    from 2 sw obtain q where u: "up (redis w)"
      and l: "live (clock (redis w)) (owners (redis w) s) = Some q" and q: "q \<noteq> p"
      by (auto split: option.splits)
    from agree_holder [OF ag, of q s] l
    have h: "case told w q s of None \<Rightarrow> False | Some d \<Rightarrow> clock (redis w) < d" by simp
    have "holds (apply_event (Step p i) w) q s
          \<and> lease_owner (apply_event (Step p i) w) s \<noteq> Some q"
      using 2 i cpr u q h
      by (auto simp: step_del holds_def lease_owner_def split: option.splits)
    then show ?thesis by blast
  qed
qed

text \<open>
  Acquire is a single \<^verbatim>\<open>SET NX\<close>, so a run in which only acquire is called has no
  stale write, however its commands interleave and however time passes.
\<close>

lemma calls_kept:
  assumes "(c, pr) \<in> set (running (apply_event e w) q)"
  shows "(\<exists>pr0. (c, pr0) \<in> set (running w q)) \<or> (\<exists>p. e = Call p c)"
proof (cases e)
  case (Call p c')
  with assms show ?thesis by (auto split: if_splits)
next
  case (Tick d)
  with assms show ?thesis by auto
next
  case (Step p i)
  show ?thesis
  proof (cases "length (running w p) \<le> i \<or> q \<noteq> p")
    case True
    with assms Step show ?thesis
      by (auto split: prod.splits option.splits if_splits)
  next
    case False
    then have i: "i < length (running w p)" and q: "q = p" by simp_all
    obtain c0 pr0 where c0: "running w p ! i = (c0, pr0)" by (cases "running w p ! i")
    with i have mem: "(c0, pr0) \<in> set (running w p)" by (metis nth_mem)
    obtain pr' st' where st: "step pr0 (redis w) = (pr', st')" by (cases "step pr0 (redis w)")
    show ?thesis
    proof (cases "is_Return pr'")
      case None
      with assms Step i q c0 st have "(c, pr) \<in> set ((running w p)[i := (c0, pr')])" by simp
      with set_update_subset_insert [of "running w p" i "(c0, pr')"]
      have "(c, pr) = (c0, pr') \<or> (c, pr) \<in> set (running w p)" by auto
      with mem q show ?thesis by auto
    next
      case (Some b)
      with assms Step i q c0 st have "(c, pr) \<in> set (drop_nth i (running w p))" by simp
      with set_drop_nth [of i "running w p"] q show ?thesis by auto
    qed
  qed
qed

lemma acquire_runs_no_stale_write:
  assumes "Inv w" and "\<forall>p c pr. (c, pr) \<in> set (running w p) \<longrightarrow> (\<exists>s t. c = Acquire s t)"
    and "list_all acquire_only es"
  shows "no_stale_write es w"
  using assms
proof (induction es arbitrary: w)
  case Nil
  then show ?case by simp
next
  case (Cons e es)
  have ns: "\<not> stale e w"
  proof (cases e)
    case (Step p i)
    show ?thesis
    proof (cases "i < length (running w p)")
      case False
      with Step show ?thesis by simp
    next
      case True
      obtain c pr where cpr: "running w p ! i = (c, pr)" by (cases "running w p ! i")
      with True have mem: "(c, pr) \<in> set (running w p)" by (metis nth_mem)
      with Cons.prems(2) obtain s t where c: "c = Acquire s t" by blast
      from Cons.prems(1) mem have "at_point p c pr" by (simp add: Inv_def points_ok_def)
      with c have "pr = acquireSessionOwnership s p t \<or> pr = logStage s" by (simp add: at_point_def)
      then have "\<not> stale_write p pr (redis w)" by auto
      with Step cpr show ?thesis by simp
    qed
  qed simp_all
  from Cons.prems(1) ns have inv: "Inv (apply_event e w)" by (rule Inv_event)
  have only: "\<forall>p c pr. (c, pr) \<in> set (running (apply_event e w) p) \<longrightarrow> (\<exists>s t. c = Acquire s t)"
  proof (intro allI impI)
    fix p c pr assume "(c, pr) \<in> set (running (apply_event e w) p)"
    from calls_kept [OF this] show "\<exists>s t. c = Acquire s t"
    proof
      assume "\<exists>pr0. (c, pr0) \<in> set (running w p)"
      with Cons.prems(2) show ?thesis by blast
    next
      assume "\<exists>p. e = Call p c"
      with Cons.prems(3) show ?thesis by (cases c) (auto simp: acquire_only_def)
    qed
  qed
  from Cons.prems(3) have "list_all acquire_only es" by simp
  from Cons.IH [OF inv only this] ns show ?case by simp
qed

section \<open>Lease renewal, command by command\<close>

text \<open>
  C5 (as amended). \<^verbatim>\<open>updateSessionOwnership\<close> is two commands, and other commands and
  time may come between them; \<open>st\<close> is the store at its \<^verbatim>\<open>GET\<close>, \<open>st'\<close> the store at its
  second command, \<open>st''\<close> the store at any of its commands. At the \<^verbatim>\<open>GET\<close>: an unreachable
  store, or a lease held by a different process, makes it return false at once, nothing
  thrown and nothing written; no lease makes it continue as \<^verbatim>\<open>acquireSessionOwnership\<close>;
  the caller's own lease makes it continue with \<^verbatim>\<open>EXPIRE\<close>. The \<^verbatim>\<open>EXPIRE\<close> is not
  conditional on the owner and its reply is not read: it returns true whenever the store
  is reachable, having set the expiry of whatever lease is there, the caller's or not, to
  \<open>ttl\<close> seconds from then, or having changed nothing when no lease is left. No command of
  a renew asking for a positive TTL takes a live lease of any session from its owner.
\<close>

theorem renew_command_by_command:
  "(\<not> up st \<longrightarrow> step (updateSessionOwnership s p ttl) st = (Return False, st))
   \<and> (up st \<and> live (clock st) (owners st s) = Some q \<and> q \<noteq> p \<longrightarrow>
        step (updateSessionOwnership s p ttl) st = (Return False, st))
   \<and> (up st \<and> live (clock st) (owners st s) = None \<longrightarrow>
        step (updateSessionOwnership s p ttl) st = (acquireSessionOwnership s p ttl, st))
   \<and> (up st \<and> live (clock st) (owners st s) = Some p \<longrightarrow>
        step (updateSessionOwnership s p ttl) st = (expireStage s ttl, st))
   \<and> (\<not> up st' \<longrightarrow> step (expireStage s ttl) st' = (Return False, st'))
   \<and> (up st' \<and> live (clock st') (owners st' s) = Some r \<longrightarrow>
        step (expireStage s ttl) st' =
          (Return True, st'\<lparr>owners := (owners st')(s \<mapsto> (r, clock st' + ttl))\<rparr>))
   \<and> (up st' \<and> live (clock st') (owners st' s) = None \<longrightarrow>
        step (expireStage s ttl) st' = (Return True, st'))
   \<and> (at_point p (Renew s ttl) pr \<and> 0 < ttl \<and> live (clock st'') (owners st'' k) = Some h \<longrightarrow>
        live (clock st'') (owners (snd (step pr st'')) k) = Some h
        \<and> clock (snd (step pr st'')) = clock st'')"
proof -
  have "at_point p (Renew s ttl) pr \<and> 0 < ttl \<and> live (clock st'') (owners st'' k) = Some h \<longrightarrow>
        live (clock st'') (owners (snd (step pr st'')) k) = Some h
        \<and> clock (snd (step pr st'')) = clock st''"
    by (auto simp: at_point_def step_update step_acquire step_log step_expire
        split: option.splits)
  then show ?thesis
    by (simp add: step_update step_expire)
qed

theorem renew_command_by_command_witness:
  "step (updateSessionOwnership ''s1'' 1 30) (store0\<lparr>up := False\<rparr>) = (Return False, store0\<lparr>up := False\<rparr>)
   \<and> step (updateSessionOwnership ''s1'' 1 30) store_taken_over = (Return False, store_taken_over)
   \<and> step (updateSessionOwnership ''s1'' 1 30) store0 = (acquireSessionOwnership ''s1'' 1 30, store0)
   \<and> step (updateSessionOwnership ''s1'' 1 30) store_seen_by_renew = (expireStage ''s1'' 30, store_seen_by_renew)
   \<and> step (expireStage ''s1'' 30) (store0\<lparr>up := False\<rparr>) = (Return False, store0\<lparr>up := False\<rparr>)
   \<and> step (expireStage ''s1'' 30) store_taken_over =
       (Return True, store_taken_over\<lparr>owners := (owners store_taken_over)(''s1'' \<mapsto> (2, 70))\<rparr>)
   \<and> step (expireStage ''s1'' 30) store0 = (Return True, store0)
   \<and> live 40 (owners (snd (step (expireStage ''s1'' 30) store_taken_over)) ''s1'') = Some 2"
proof -
  have down: "\<not> up (store0\<lparr>up := False\<rparr>)" by simp
  have other: "up store_taken_over \<and> live (clock store_taken_over) (owners store_taken_over ''s1'') = Some 2
               \<and> (2::nat) \<noteq> 1"
    by (simp add: store_taken_over_def store0_def)
  have none: "up store0 \<and> live (clock store0) (owners store0 ''s1'') = None"
    by (simp add: store0_def)
  have own: "up store_seen_by_renew
             \<and> live (clock store_seen_by_renew) (owners store_seen_by_renew ''s1'') = Some 1"
    by (simp add: store_seen_by_renew_def store0_def)
  have pt: "at_point 1 (Renew ''s1'' 30) (expireStage ''s1'' 30) \<and> (0::nat) < 30
            \<and> live (clock store_taken_over) (owners store_taken_over ''s1'') = Some 2"
    by (simp add: at_point_def store_taken_over_def store0_def)
  have ck: "clock store_taken_over = 40" "clock store_taken_over + 30 = 70"
    by (simp_all add: store_taken_over_def)
  note t1 = renew_command_by_command
    [of "store0\<lparr>up := False\<rparr>" "''s1''" 1 30 2 "store0\<lparr>up := False\<rparr>" 2 "expireStage ''s1'' 30" store_taken_over "''s1''" 2]
  note t2 = renew_command_by_command
    [of store_taken_over "''s1''" 1 30 2 store_taken_over 2 "expireStage ''s1'' 30" store_taken_over "''s1''" 2]
  note t3 = renew_command_by_command
    [of store0 "''s1''" 1 30 2 store0 2 "expireStage ''s1'' 30" store_taken_over "''s1''" 2]
  note t4 = renew_command_by_command
    [of store_seen_by_renew "''s1''" 1 30 2 store0 2 "expireStage ''s1'' 30" store_taken_over "''s1''" 2]
  from t1 down have 1: "step (updateSessionOwnership ''s1'' 1 30) (store0\<lparr>up := False\<rparr>) = (Return False, store0\<lparr>up := False\<rparr>)"
    and 5: "step (expireStage ''s1'' 30) (store0\<lparr>up := False\<rparr>) = (Return False, store0\<lparr>up := False\<rparr>)"
    by blast+
  from t2 other have 2: "step (updateSessionOwnership ''s1'' 1 30) store_taken_over = (Return False, store_taken_over)"
    by blast
  from t2 other ck have 6: "step (expireStage ''s1'' 30) store_taken_over =
       (Return True, store_taken_over\<lparr>owners := (owners store_taken_over)(''s1'' \<mapsto> (2, 70))\<rparr>)"
    by simp
  from t2 pt ck have 8: "live 40 (owners (snd (step (expireStage ''s1'' 30) store_taken_over)) ''s1'') = Some 2"
    by simp
  from t3 none have 3: "step (updateSessionOwnership ''s1'' 1 30) store0 = (acquireSessionOwnership ''s1'' 1 30, store0)"
    and 7: "step (expireStage ''s1'' 30) store0 = (Return True, store0)"
    by blast+
  from t4 own have 4: "step (updateSessionOwnership ''s1'' 1 30) store_seen_by_renew = (expireStage ''s1'' 30, store_seen_by_renew)"
    by blast
  from 1 2 3 4 5 6 7 8 show ?thesis by blast
qed

text \<open>
  C5 as stated fails. Process 1 holds the lease and starts a renew: its \<^verbatim>\<open>GET\<close> returns
  its own id. The lease expires and process 2 acquires it. The \<^verbatim>\<open>EXPIRE\<close> of process 1
  then lands on the lease of process 2: the renew returns true although the lease is held
  by a different process, and it is the TTL of process 2's lease that is set.
\<close>

theorem renew_race_true_for_non_owner:
  "lease_owner (run (take 8 renew_race) world0) ''s1'' = Some 2
   \<and> owners (redis (run (take 8 renew_race) world0)) ''s1'' = Some (2, 60)
   \<and> running (run (take 8 renew_race) world0) 1 = [(Renew ''s1'' 30, expireStage ''s1'' 30)]
   \<and> returned (run renew_race world0) =
       [(1, Acquire ''s1'' 30, True), (2, Acquire ''s1'' 30, True), (1, Renew ''s1'' 30, True)]
   \<and> owners (redis (run renew_race world0)) ''s1'' = Some (2, 70)
   \<and> lease_owner (run renew_race world0) ''s1'' = Some 2
   \<and> holds (run renew_race world0) 1 ''s1''"
  by (simp add: renew_race_def race_evals expireStage_def)

section \<open>Reconnection: delays and giving up\<close>

lemma floor_rat_numeral_div [simp]: "\<lfloor>numeral a / numeral b :: rat\<rfloor> = numeral a div numeral b"
  by (metis floor_divide_of_int_eq of_int_numeral)

lemma floor_rat_one_div [simp]: "\<lfloor>1 / numeral b :: rat\<rfloor> = 1 div numeral b"
  by (metis floor_divide_of_int_eq of_int_1 of_int_numeral)


lemma bitlen_leI:
  assumes "N < 2 ^ k"
  shows "bitlen N \<le> int k"
proof (cases "0 < N")
  case False
  then have "bitlen N = 0" by (simp add: bitlen_eq_zero_iff)
  then show ?thesis by simp
next
  case True
  from bitlen_bounds [OF True] have "2 ^ nat (bitlen N - 1) \<le> N" by simp
  from this assms have "(2::int) ^ nat (bitlen N - 1) < 2 ^ k" by (rule le_less_trans)
  then have "nat (bitlen N - 1) < k" by (rule power_less_imp_less_exp [rotated]) simp
  then show ?thesis by linarith
qed


lemma ulp_grid:
  assumes "\<bar>x\<bar> < 2 ^ 53"
  shows "\<exists>m. ulp x = 1 / 2 ^ m"
proof -
  let ?y = "\<bar>x\<bar> * 2 ^ SUBNORMAL_BITS"
  have pos: "(0::rat) < 2 ^ SUBNORMAL_BITS" by simp
  from assms pos have "?y < 2 ^ 53 * 2 ^ SUBNORMAL_BITS" by (rule mult_strict_right_mono)
  also have "\<dots> = of_int (2 ^ (53 + SUBNORMAL_BITS))" by (simp only: power_add of_int_mult of_int_power of_int_numeral)
  finally have "\<lfloor>?y\<rfloor> < 2 ^ (53 + SUBNORMAL_BITS)" by (simp only: floor_less_iff)
  from bitlen_leI [OF this] have "bitlen \<lfloor>?y\<rfloor> \<le> 1127" by (simp add: SUBNORMAL_BITS_def)
  then have le: "max (bitlen \<lfloor>?y\<rfloor>) 53 - 1127 \<le> 0" by simp
  define j where "j = nat (1127 - max (bitlen \<lfloor>?y\<rfloor>) 53)"
  with le have "max (bitlen \<lfloor>?y\<rfloor>) 53 - 1127 = - int j" by simp
  then have "ulp x = power_int 2 (- int j)" by (simp add: ulp_def)
  also have "\<dots> = 1 / 2 ^ j" by (simp add: power_int_minus field_simps)
  finally show ?thesis by blast
qed

lemma round_half_even_ge: "of_int a \<le> y \<Longrightarrow> a \<le> round_half_even y"
proof -
  assume "of_int a \<le> y"
  then have "a \<le> \<lfloor>y\<rfloor>" by (simp add: le_floor_iff)
  then show ?thesis by (simp add: round_half_even_def)
qed

lemma round_half_even_le: "y \<le> of_int b \<Longrightarrow> round_half_even y \<le> b"
proof -
  assume le: "y \<le> of_int b"
  then have "y < of_int b + 1" by simp
  then have f: "\<lfloor>y\<rfloor> \<le> b" by (simp only: floor_le_iff)
  show ?thesis
  proof (cases "y - of_int \<lfloor>y\<rfloor> < 1 / 2")
    case True
    with f show ?thesis by (simp add: round_half_even_def)
  next
    case False
    then have "of_int \<lfloor>y\<rfloor> < y" by simp
    with le have "of_int \<lfloor>y\<rfloor> < (of_int b :: rat)" by simp
    then have "\<lfloor>y\<rfloor> < b" by simp
    then show ?thesis by (simp add: round_half_even_def)
  qed
qed

lemma round_half_even_of_int [simp]: "round_half_even (of_int k) = k"
  by (simp add: round_half_even_def)

lemma fl_between:
  assumes "of_int a \<le> x" and "x \<le> of_int b" and "\<bar>x\<bar> < 2 ^ 53"
  shows "of_int a \<le> fl x \<and> fl x \<le> of_int b"
proof -
  from ulp_grid [OF assms(3)] obtain m where u: "ulp x = 1 / 2 ^ m" by blast
  have eq: "x / ulp x = x * 2 ^ m" by (simp add: u)
  from assms(1) have "of_int (a * 2 ^ m) \<le> x * 2 ^ m" by (simp add: mult_right_mono)
  then have lo: "a * 2 ^ m \<le> round_half_even (x / ulp x)" unfolding eq by (rule round_half_even_ge)
  from assms(2) have "x * 2 ^ m \<le> of_int (b * 2 ^ m)" by (simp add: mult_right_mono)
  then have hi: "round_half_even (x / ulp x) \<le> b * 2 ^ m" unfolding eq by (rule round_half_even_le)
  have f: "fl x = of_int (round_half_even (x / ulp x)) / 2 ^ m" by (simp add: fl_def u)
  from lo have "(of_int (a * 2 ^ m) :: rat) \<le> of_int (round_half_even (x / ulp x))"
    by (simp only: of_int_le_iff)
  then have 1: "of_int a \<le> fl x" unfolding f by (simp add: pos_le_divide_eq)
  from hi have "(of_int (round_half_even (x / ulp x)) :: rat) \<le> of_int (b * 2 ^ m)"
    by (simp only: of_int_le_iff)
  then have 2: "fl x \<le> of_int b" unfolding f by (simp add: pos_divide_le_eq)
  from 1 2 show ?thesis by simp
qed

lemma fl_of_int:
  assumes "\<bar>k\<bar> < 2 ^ 53"
  shows "fl (of_int k) = of_int k"
proof -
  from assms have "\<bar>of_int k :: rat\<bar> < 2 ^ 53"
    by (metis of_int_abs of_int_less_numeral_power_cancel_iff)
  from fl_between [OF _ _ this, of k k] show ?thesis by simp
qed






lemma baseDelay_eq: "baseDelay n = min 30000 (1000 * 2 ^ (n - 1))"
  by (simp add: baseDelay_def RECONNECT_MAX_DELAY_MS_def RECONNECT_BASE_DELAY_MS_def RECONNECT_FACTOR_def)

lemma baseDelay_le_cap: "baseDelay n \<le> 30000"
  by (simp add: baseDelay_eq)





lemma fl_0 [simp]: "fl 0 = 0"
  using fl_of_int [of 0] by simp


lemma delay_without_jitter: "reconnectDelay n 0 = int (baseDelay n)"
proof -
  have "int (baseDelay n) \<le> 30000" using baseDelay_le_cap [of n] by simp
  then have "\<bar>int (baseDelay n)\<bar> < 2 ^ 53" by simp
  from fl_of_int [OF this] show ?thesis
    by (simp add: reconnectDelay_def jitter_def Math_round_def)
qed





lemmas timer_defs = modify_def emit_def clearPongTimeoutTimer_def clearReconnectTimer_def
  clearHeartbeatIntervalTimer_def clearTimers_def stopHeartbeat_def


lemma scheduleReconnect_give_up:
  assumes "activeSessions c sid = Some s" "status s \<noteq> CLOSING" "status s \<noteq> CLOSED"
    and "10 \<le> reconnectAttempts s"
  shows "scheduleReconnect rnd sid c =
     c\<lparr>activeSessions := (activeSessions c)(sid := None),
       effects := effects c @
          [Emit ''permanently_closed'' sid [JStr ''Max reconnection attempts reached'']] @
          (if onClose s
           then [Callback ''onClose'' sid [JNum 1011, JStr ''Max reconnection attempts reached'']]
           else [])\<rparr>"
  using assms
  by (simp add: scheduleReconnect_def RECONNECT_MAX_ATTEMPTS_def timer_defs Let_def cleanupSession_def)

lemma absent_unchanged:
  assumes "activeSessions c sid = None"
  shows "client_step sid e c = c"
  using assms
  by (cases e) (simp_all add: on_ws_error_def on_ws_close_def on_reconnect_timer_def
      handleDisconnect_def scheduleReconnect_def connect_def)

lemma absent_forever:
  assumes "activeSessions c sid = None"
  shows "client_run sid es c = c"
  using assms by (induction es) (simp_all add: absent_unchanged)


lemma scheduleReconnect_closes:
  assumes "activeSessions c sid = Some s" "status s \<noteq> CLOSING" "status s \<noteq> CLOSED"
    and "10 \<le> reconnectAttempts s"
  shows "\<exists>c' s'. scheduleReconnect rnd sid c = cleanupSession sid c'
           \<and> activeSessions c' sid = Some s' \<and> status s' = CLOSED"
proof -
  define c1 where "c1 = modify sid (\<lambda>s. s\<lparr>status := CLOSED\<rparr>) c"
  define c2 where "c2 = emit (Emit ''permanently_closed'' sid [JStr ''Max reconnection attempts reached'']) c1"
  define c3 where "c3 = (if onClose s then emit (Callback ''onClose'' sid
                                    [JNum 1011, JStr ''Max reconnection attempts reached'']) c2 else c2)"
  have "scheduleReconnect rnd sid c = cleanupSession sid c3"
    using assms by (simp add: scheduleReconnect_def RECONNECT_MAX_ATTEMPTS_def Let_def c3_def c2_def c1_def)
  moreover have "\<exists>s'. activeSessions c3 sid = Some s' \<and> status s' = CLOSED"
    using assms(1) by (simp add: c3_def c2_def c1_def modify_def emit_def)
  ultimately show ?thesis by blast
qed

text \<open>
  A failed reconnection attempt passes through \<^verbatim>\<open>_scheduleReconnect\<close> twice, once for
  \<^verbatim>\<open>'error'\<close> and once for \<^verbatim>\<open>'close'\<close>, so it advances the attempt counter by two.
\<close>

lemmas failed_attempt_defs = failed_attempt_def on_reconnect_timer_def connect_def on_ws_error_def
  on_ws_close_def handleDisconnect_def scheduleReconnect_def cleanupSession_def
  RECONNECT_MAX_ATTEMPTS_def timer_defs Let_def

lemma failed_attempt_retry:
  assumes "retrying n oc sid c" "n + 2 \<le> 10"
  shows "retrying (n + 2) oc sid (failed_attempt r1 r2 sid c)"
proof -
  from assms obtain s d where s: "activeSessions c sid = Some s" "status s = RECONNECTING"
    "reconnectTimer s = Some d" "reconnectAttempts s = n" "onClose s = oc"
    by (auto simp: retrying_def split: option.splits)
  with assms(2) show ?thesis
    by (simp add: retrying_def failed_attempt_defs)
qed

lemma failed_attempt_give_up:
  assumes "retrying n oc sid c" "9 \<le> n"
  shows "gave_up oc sid (failed_attempt r1 r2 sid c)"
proof -
  from assms obtain s d where s: "activeSessions c sid = Some s" "status s = RECONNECTING"
    "reconnectTimer s = Some d" "reconnectAttempts s = n" "onClose s = oc"
    by (auto simp: retrying_def split: option.splits)
  show ?thesis
  proof (cases "n = 9")
    case True
    with s show ?thesis by (simp add: gave_up_def failed_attempt_defs)
  next
    case False
    with assms(2) have "10 \<le> n" by simp
    with s show ?thesis by (simp add: gave_up_def failed_attempt_defs)
  qed
qed

lemma failed_attempts_retry:
  assumes "retrying n oc sid c" "n + 2 * length rnds \<le> 10"
  shows "retrying (n + 2 * length rnds) oc sid (failed_attempts rnds sid c)"
  using assms
proof (induction rnds arbitrary: n c)
  case Nil
  then show ?case by simp
next
  case (Cons r rs)
  obtain r1 r2 where r: "r = (r1, r2)" by (cases r)
  from Cons.prems have "retrying (n + 2) oc sid (failed_attempt r1 r2 sid c)"
    by (intro failed_attempt_retry) simp_all
  with Cons.IH [of "n + 2" "failed_attempt r1 r2 sid c"] Cons.prems r show ?case by simp
qed

lemma failed_attempts_snoc:
  "failed_attempts (rnds @ [(r1, r2)]) sid c = failed_attempt r1 r2 sid (failed_attempts rnds sid c)"
  by (induction rnds arbitrary: c) auto

text \<open>
  The counter counts failure events, whatever their kind and however the timer firings
  fall between them: from a counter of \<open>n\<close>, after \<open>k\<close> failure events the session is
  still in the loop with counter \<open>n + k\<close> as long as that is at most ten, and given up
  as soon as it is more.
\<close>

lemmas event_defs = on_reconnect_timer_def connect_def on_ws_error_def on_ws_close_def
  handleDisconnect_def scheduleReconnect_def cleanupSession_def RECONNECT_MAX_ATTEMPTS_def timer_defs Let_def

lemma failure_counts:
  assumes "in_loop n oc sid c" "is_failure e" "n < 10"
  shows "in_loop (Suc n) oc sid (client_step sid e c)"
proof -
  from assms(1) obtain s where s: "activeSessions c sid = Some s" "status s \<noteq> CLOSING"
    "status s \<noteq> CLOSED" "reconnectAttempts s = n" "onClose s = oc"
    by (auto simp: in_loop_def split: option.splits)
  from assms(2) show ?thesis
  proof (cases e)
    case (WsError r)
    with s assms(3) show ?thesis by (simp add: in_loop_def event_defs)
  next
    case (WsClose r code)
    with s assms(2,3) show ?thesis by (simp add: in_loop_def event_defs)
  qed simp_all
qed

lemma failure_gives_up:
  assumes "in_loop n oc sid c" "is_failure e" "10 \<le> n"
  shows "gave_up oc sid (client_step sid e c)"
proof -
  from assms(1) obtain s where s: "activeSessions c sid = Some s" "status s \<noteq> CLOSING"
    "status s \<noteq> CLOSED" "reconnectAttempts s = n" "onClose s = oc"
    by (auto simp: in_loop_def split: option.splits)
  from assms(2) show ?thesis
  proof (cases e)
    case (WsError r)
    with s assms(3) show ?thesis by (simp add: gave_up_def event_defs)
  next
    case (WsClose r code)
    with s assms(2,3) show ?thesis by (simp add: gave_up_def event_defs)
  qed simp_all
qed

lemma retry_keeps_count:
  assumes "in_loop n oc sid c"
  shows "in_loop n oc sid (client_step sid (ReconnectTimerFires r False) c)"
proof -
  from assms(1) obtain s where s: "activeSessions c sid = Some s" "status s \<noteq> CLOSING"
    "status s \<noteq> CLOSED" "reconnectAttempts s = n" "onClose s = oc"
    by (auto simp: in_loop_def split: option.splits)
  then show ?thesis
    by (cases "reconnectTimer s") (simp_all add: in_loop_def event_defs)
qed

lemma gave_up_stays:
  assumes "gave_up oc sid c"
  shows "client_run sid es c = c"
  using assms by (simp add: gave_up_def absent_forever)

lemma failures_counted:
  assumes "in_loop n oc sid c" "list_all is_failure_or_retry es" "n \<le> 10"
  shows "(n + length (filter is_failure es) \<le> 10 \<longrightarrow>
            in_loop (n + length (filter is_failure es)) oc sid (client_run sid es c))
       \<and> (10 < n + length (filter is_failure es) \<longrightarrow> gave_up oc sid (client_run sid es c))"
  using assms
proof (induction es arbitrary: n c)
  case Nil
  then show ?case by simp
next
  case (Cons e es)
  show ?case
  proof (cases "is_failure e")
    case True
    show ?thesis
    proof (cases "n < 10")
      case lt: True
      from failure_counts [OF Cons.prems(1) True lt]
      have "in_loop (Suc n) oc sid (client_step sid e c)" .
      from Cons.IH [OF this] Cons.prems(2) True lt show ?thesis by simp
    next
      case False
      then have "gave_up oc sid (client_step sid e c)"
        using failure_gives_up [OF Cons.prems(1) True] by simp
      with False True show ?thesis by (simp add: gave_up_stays)
    qed
  next
    case False
    with Cons.prems(2) obtain r where e: "e = ReconnectTimerFires r False"
      by (cases e) auto
    from retry_keeps_count [OF Cons.prems(1), of r]
    have "in_loop n oc sid (client_step sid e c)" by (simp add: e)
    from Cons.IH [OF this] Cons.prems(2,3) False show ?thesis by simp
  qed
qed


text \<open>
  The timer left pending after a failed attempt is the one set for \<^verbatim>\<open>'close'\<close>: after the
  connection is lost the delay is that of counter value 1, after the first failed
  reconnection attempt it is that of counter value 3.
\<close>

lemma failed_attempt_skips_a_delay:
  "map_option reconnectTimer (activeSessions (on_ws_close 0 ''s1'' 1006 client1) ''s1'')
     = Some (Some 1000)
   \<and> map_option reconnectTimer
       (activeSessions (failed_attempt 0 0 ''s1'' (on_ws_close 0 ''s1'' 1006 client1)) ''s1'')
     = Some (Some 4000)
   \<and> map_option reconnectAttempts
       (activeSessions (failed_attempt 0 0 ''s1'' (on_ws_close 0 ''s1'' 1006 client1)) ''s1'')
     = Some 3"
  by (simp add: failed_attempt_defs client1_def session1_def delay_without_jitter baseDelay_eq)

text \<open>
  C7. The program gives up earlier than the claim says. A session that has not yet
  failed (attempt counter 0, neither closing nor closed) loses its connection (its socket
  closes with code 1006), and then every reconnection attempt fails. Each failed attempt
  raises \<^verbatim>\<open>'error'\<close> and then \<^verbatim>\<open>'close'\<close>, and each of the two advances the counter, so
  after \<open>k\<close> failed reconnection attempts the counter is \<open>2 * k + 1\<close>. With
  \<^verbatim>\<open>RECONNECT_MAX_ATTEMPTS\<close> at ten, the session is still \<^verbatim>\<open>RECONNECTING\<close> with a timer
  pending after each of the first four failed attempts; during the fifth it is given up:
  \<^verbatim>\<open>permanently_closed\<close> is emitted, the close callback (when one was registered) is called
  with code 1011 and the reason \<^verbatim>\<open>Max reconnection attempts reached\<close>, and the session is
  removed from \<^verbatim>\<open>activeSessions\<close>. From then on no socket event, timer or internal call
  changes the client at all, so no reconnect timer is set again. What happens at the
  give-up is what the claim describes; it happens after five failed reconnection
  attempts, not ten.
\<close>

theorem gives_up_at_fifth_failed_reconnection:
  assumes "activeSessions c sid = Some s" and "status s \<noteq> CLOSING" and "status s \<noteq> CLOSED"
    and "reconnectAttempts s = 0" and "length rnds = 5"
  shows "RECONNECT_MAX_ATTEMPTS = Some 10
       \<and> (\<forall>k < 5. retrying (2 * k + 1) (onClose s) sid
              (failed_attempts (take k rnds) sid (on_ws_close r0 sid 1006 c)))
       \<and> gave_up (onClose s) sid (failed_attempts rnds sid (on_ws_close r0 sid 1006 c))
       \<and> (\<forall>es. client_run sid es (failed_attempts rnds sid (on_ws_close r0 sid 1006 c))
               = failed_attempts rnds sid (on_ws_close r0 sid 1006 c))"
proof -
  let ?c1 = "on_ws_close r0 sid 1006 c"
  have r1: "retrying 1 (onClose s) sid ?c1"
    using assms(1-4)
    by (simp add: retrying_def on_ws_close_def handleDisconnect_def scheduleReconnect_def
        RECONNECT_MAX_ATTEMPTS_def timer_defs Let_def)
  have steps: "retrying (2 * k + 1) (onClose s) sid (failed_attempts (take k rnds) sid ?c1)"
    if "k < 5" for k
    using failed_attempts_retry [OF r1, of "take k rnds"] that assms(5) by (simp add: add.commute)
  obtain rs r where rnds: "rnds = rs @ [r]" using assms(5) by (cases rnds rule: rev_cases) auto
  obtain ra rb where r: "r = (ra, rb)" by (cases r)
  from rnds assms(5) have "length rs = 4" by simp
  then have last: "retrying 9 (onClose s) sid (failed_attempts rs sid ?c1)"
    using failed_attempts_retry [OF r1, of rs] by simp
  have g: "gave_up (onClose s) sid (failed_attempts rnds sid ?c1)"
    unfolding rnds r failed_attempts_snoc by (rule failed_attempt_give_up [OF last]) simp
  from g have "activeSessions (failed_attempts rnds sid ?c1) sid = None"
    by (simp add: gave_up_def)
  then have "\<forall>es. client_run sid es (failed_attempts rnds sid ?c1) = failed_attempts rnds sid ?c1"
    by (simp add: absent_forever)
  with steps g show ?thesis by (simp add: RECONNECT_MAX_ATTEMPTS_def)
qed

theorem gives_up_at_fifth_failed_reconnection_witness:
  "activeSessions client1 ''s1'' = Some session1 \<and> status session1 \<noteq> CLOSING
   \<and> status session1 \<noteq> CLOSED \<and> reconnectAttempts session1 = 0
   \<and> length (replicate 5 (0::rat, 0::rat)) = 5
   \<and> retrying 9 True ''s1''
        (failed_attempts (take 4 (replicate 5 (0, 0))) ''s1'' (on_ws_close 0 ''s1'' 1006 client1))
   \<and> gave_up True ''s1'' (failed_attempts (replicate 5 (0, 0)) ''s1'' (on_ws_close 0 ''s1'' 1006 client1))
   \<and> activeSessions (failed_attempts (replicate 5 (0, 0)) ''s1'' (on_ws_close 0 ''s1'' 1006 client1)) ''s1''
       = None"
proof -
  have a: "activeSessions client1 ''s1'' = Some session1" by (simp add: client1_def)
  have b: "status session1 \<noteq> CLOSING" "status session1 \<noteq> CLOSED" "reconnectAttempts session1 = 0"
    by (simp_all add: session1_def)
  have c: "length (replicate 5 (0::rat, 0::rat)) = 5" by simp
  have d: "onClose session1" by (simp add: session1_def)
  note t = gives_up_at_fifth_failed_reconnection [OF a b c, of 0]
  from t d have g: "gave_up True ''s1''
      (failed_attempts (replicate 5 (0, 0)) ''s1'' (on_ws_close 0 ''s1'' 1006 client1))"
    by simp
  then have n: "activeSessions (failed_attempts (replicate 5 (0, 0)) ''s1''
      (on_ws_close 0 ''s1'' 1006 client1)) ''s1'' = None"
    by (simp add: gave_up_def)
  from t have "\<forall>k<5. retrying (2 * k + 1) (onClose session1) ''s1''
      (failed_attempts (take k (replicate 5 (0, 0))) ''s1'' (on_ws_close 0 ''s1'' 1006 client1))"
    by blast
  then have "retrying (2 * 4 + 1) (onClose session1) ''s1''
      (failed_attempts (take 4 (replicate 5 (0, 0))) ''s1'' (on_ws_close 0 ''s1'' 1006 client1))"
    by (rule allE [of _ 4]) simp
  with d have r: "retrying 9 True ''s1''
      (failed_attempts (take 4 (replicate 5 (0, 0))) ''s1'' (on_ws_close 0 ''s1'' 1006 client1))"
    by simp
  from a b c g n r show ?thesis by blast
qed




section \<open>Sending to the AI provider\<close>

lemma sendMessage_sends_when_open:
  assumes "activeSessions c sid = Some s" "status s = OPEN" "ws s = Some w" "readyState w = WS_OPEN"
  shows "sendMessage sid m c =
           (True, c\<lparr>activeSessions := (activeSessions c)(sid \<mapsto> s\<lparr>ws := Some (w\<lparr>sent := sent w @ [m]\<rparr>)\<rparr>)\<rparr>)"
  using assms by (simp add: sendMessage_def ws_send_def modify_def)


text \<open>
  C10. When the session is unknown, or its status is not \<^verbatim>\<open>OPEN\<close>, or it has no socket,
  or the socket is not open, \<^verbatim>\<open>sendMessage\<close> returns false and changes nothing: no frame
  is sent and nothing is queued; \<^verbatim>\<open>sendAudioChunk\<close> likewise. While the status is
  \<^verbatim>\<open>CONNECTING\<close> or \<^verbatim>\<open>RECONNECTING\<close> the media-stream handler's gate
  \<^verbatim>\<open>isSessionActiveOrOpening\<close> holds, so a media event with a payload is handed to
  \<^verbatim>\<open>sendAudioChunk\<close>, and is dropped there.
\<close>

theorem sendMessage_drops_unless_open:
  assumes "activeSessions c sid = None
           \<or> (\<exists>s. activeSessions c sid = Some s
                  \<and> (status s \<noteq> OPEN \<or> ws s = None \<or> (\<exists>w. ws s = Some w \<and> readyState w \<noteq> WS_OPEN)))"
  shows "sendMessage sid m c = (False, c) \<and> sendAudioChunk sid a c = c
       \<and> ((\<exists>s. activeSessions c sid = Some s \<and> (status s = CONNECTING \<or> status s = RECONNECTING)) \<and> truthy (Some a) \<longrightarrow>
             isSessionActiveOrOpening sid c
             \<and> forwardCallerAudio sid (JObj [(''event'', JStr ''media''), (''media'', JObj [(''payload'', a)])]) c
                 = sendAudioChunk sid a c
             \<and> forwardCallerAudio sid (JObj [(''event'', JStr ''media''), (''media'', JObj [(''payload'', a)])]) c = c)"
proof -
  from assms have 1: "sendMessage sid m c = (False, c)" for m
    by (auto simp: sendMessage_def split: option.splits)
  then have 2: "sendAudioChunk sid a c = c" for a by (simp add: sendAudioChunk_def)
  have 3: "isSessionActiveOrOpening sid c"
    if "\<exists>s. activeSessions c sid = Some s \<and> (status s = CONNECTING \<or> status s = RECONNECTING)"
    using that by (auto simp: isSessionActiveOrOpening_def)
  have "forwardCallerAudio sid (JObj [(''event'', JStr ''media''), (''media'', JObj [(''payload'', a)])]) c
                 = sendAudioChunk sid a c"
    if "\<exists>s. activeSessions c sid = Some s \<and> (status s = CONNECTING \<or> status s = RECONNECTING)"
      and "truthy (Some a)"
    using that 3 by (simp add: forwardCallerAudio_def)
  with 1 2 3 show ?thesis by auto
qed

theorem sendMessage_drops_unless_open_witness:
  "(\<exists>s. activeSessions client_reconnecting ''s1'' = Some s \<and> (status s = CONNECTING \<or> status s = RECONNECTING))
   \<and> truthy (Some (JStr ''AAAA''))
   \<and> sendMessage ''s1'' (JObj [(''user_audio_chunk'', JStr ''AAAA'')]) client_reconnecting
        = (False, client_reconnecting)
   \<and> isSessionActiveOrOpening ''s1'' client_reconnecting
   \<and> forwardCallerAudio ''s1'' (JObj [(''event'', JStr ''media''), (''media'', JObj [(''payload'', JStr ''AAAA'')])])
        client_reconnecting = client_reconnecting
   \<and> fst (sendMessage ''s1'' (JObj [(''user_audio_chunk'', JStr ''AAAA'')]) client1)"
proof -
  have a: "\<exists>s. activeSessions client_reconnecting ''s1'' = Some s \<and> (status s = CONNECTING \<or> status s = RECONNECTING)"
    by (simp add: client_reconnecting_def client1_def)
  then have b: "activeSessions client_reconnecting ''s1'' = None
           \<or> (\<exists>s. activeSessions client_reconnecting ''s1'' = Some s
                  \<and> (status s \<noteq> OPEN \<or> ws s = None \<or> (\<exists>w. ws s = Some w \<and> readyState w \<noteq> WS_OPEN)))"
    by auto
  have c: "truthy (Some (JStr ''AAAA''))" by simp
  have d: "fst (sendMessage ''s1'' (JObj [(''user_audio_chunk'', JStr ''AAAA'')]) client1)"
    by (simp add: sendMessage_def client1_def session1_def new_WebSocket_def ws_send_def)
  from sendMessage_drops_unless_open [OF b, of "JObj [(''user_audio_chunk'', JStr ''AAAA'')]" "JStr ''AAAA''"] a c d
  show ?thesis by simp
qed

section \<open>Ending a conversation held by another process\<close>

lemma exec_getOutboundSession:
  "exec (getOutboundSession sid) st = (if up st then live (clock st) (sessions st sid) else None, st)"
  by (simp add: getOutboundSession_def redis_get_session_def)

lemma exec_getSessionOwner:
  "exec (getSessionOwner sid) st = (if up st then live (clock st) (owners st sid) else None, st)"
  by (simp add: getSessionOwner_def redis_get_owner_def)

lemma exec_saveOutboundSession:
  "exec (saveOutboundSession sid d ttl) st =
     ((), if up st then st\<lparr>sessions := (sessions st)(sid \<mapsto> (d, clock st + ttl))\<rparr> else st)"
  by (simp add: saveOutboundSession_def redis_set_session_def)

lemma map_of_spread:
  "map_of (spread obj kvs) = foldl (\<lambda>m (k, v). m(k \<mapsto> v)) (map_of obj) kvs"
  unfolding spread_def
  by (induction kvs arbitrary: obj) (auto simp: update_conv')

lemma endConversation_remote:
  assumes "activeSessions c sid = None" "up st" "live (clock st) (sessions st sid) = Some d"
  shows "endConversation rnd nowMs sid c st =
           (c, st\<lparr>sessions := (sessions st)(sid \<mapsto> (terminationRequest d (process_pid c) nowMs, clock st + 3600))\<rparr>)"
  using assms
  by (simp add: endConversation_def sessionExistsAnywhere_def exec_getOutboundSession
      exec_getSessionOwner exec_saveOutboundSession)

lemma terminationRequest_fields:
  "map_of (terminationRequest d p nowMs) =
     (map_of d)(''status'' \<mapsto> JStr ''terminating'', ''terminateRequested'' \<mapsto> JBool True,
                ''terminateRequestedBy'' \<mapsto> JNum (int p), ''terminateRequestTime'' \<mapsto> JNum nowMs)"
  by (simp add: terminationRequest_def map_of_spread)

lemma refreshOwnership_frame:
  "sessions (refreshOwnership sid c st) = sessions st \<and> clock (refreshOwnership sid c st) = clock st
   \<and> up (refreshOwnership sid c st) = up st"
  by (auto simp: refreshOwnership_def exec_update exec_acquire split: option.splits)

lemma heartbeat_tick_terminates:
  assumes "activeSessions c sid = Some s" "heartbeatTimer s" "ws s = Some w" "readyState w = WS_OPEN"
    and "up st" "live (clock st) (sessions st sid) = Some d" "truthy (map_of d ''terminateRequested'')"
  shows "\<exists>s' w'. activeSessions (fst (heartbeat_tick rnd nowMs sid c st)) sid = Some s'
           \<and> \<not> heartbeatTimer s' \<and> \<not> pongTimeoutTimer s' \<and> status s' = CLOSING
           \<and> ws s' = Some w' \<and> readyState w' = WS_CLOSING
           \<and> closeArgs w' = Some (1000, TerminationRequestedByProcess (map_of d ''terminateRequestedBy''))"
  using assms refreshOwnership_frame [of sid _ st]
  by (simp add: heartbeat_tick_def checkForTerminationRequests_def exec_getOutboundSession
      exec_saveOutboundSession Let_def modify_def clearPongTimeoutTimer_def clearHeartbeatIntervalTimer_def
      clearTimers_def stopHeartbeat_def ws_close_def)


text \<open>
  C6. Process B does not hold the session locally; the shared Session record exists and
  the store is reachable. Its \<^verbatim>\<open>endConversation\<close> returns normally, leaves B's client as
  it was, and leaves the record in the store with \<^verbatim>\<open>terminateRequested\<close> set. Less than an
  hour later the heartbeat of the owning process A fires on an open socket: the heartbeat
  and pong timers are cleared, the status becomes \<^verbatim>\<open>CLOSING\<close>, and the socket is closed
  with code 1000 and the reason \<^verbatim>\<open>Termination requested by process\<close> followed by B's
  process id.
\<close>

theorem termination_request_reaches_owner:
  assumes "activeSessions cB sid = None" and "up st" and "live (clock st) (sessions st sid) = Some d"
    and "activeSessions cA sid = Some s" and "heartbeatTimer s" and "ws s = Some w"
    and "readyState w = WS_OPEN" and "dt < 3600"
  shows "\<exists>st1. endConversation rndB nowB sid cB st = (cB, st1)
          \<and> live (clock st1) (sessions st1 sid) = Some (terminationRequest d (process_pid cB) nowB)
          \<and> map_of (terminationRequest d (process_pid cB) nowB) ''terminateRequested'' = Some (JBool True)
          \<and> (\<exists>s' w'. activeSessions (fst (heartbeat_tick rndA nowA sid cA (st1\<lparr>clock := clock st1 + dt\<rparr>))) sid = Some s'
               \<and> \<not> heartbeatTimer s' \<and> \<not> pongTimeoutTimer s' \<and> status s' = CLOSING
               \<and> ws s' = Some w' \<and> readyState w' = WS_CLOSING
               \<and> closeArgs w' = Some (1000, TerminationRequestedByProcess (Some (JNum (int (process_pid cB))))))"
proof -
  let ?d = "terminationRequest d (process_pid cB) nowB"
  let ?st1 = "st\<lparr>sessions := (sessions st)(sid \<mapsto> (?d, clock st + 3600))\<rparr>"
  let ?st2 = "?st1\<lparr>clock := clock ?st1 + dt\<rparr>"
  have e: "endConversation rndB nowB sid cB st = (cB, ?st1)"
    by (rule endConversation_remote [OF assms(1-3)])
  have l1: "live (clock ?st1) (sessions ?st1 sid) = Some ?d" by (simp add: live_def)
  have f: "map_of ?d ''terminateRequested'' = Some (JBool True)"
    "map_of ?d ''terminateRequestedBy'' = Some (JNum (int (process_pid cB)))"
    by (simp_all add: terminationRequest_fields)
  have u: "up ?st2" using assms(2) by simp
  have l2: "live (clock ?st2) (sessions ?st2 sid) = Some ?d" using assms(8) by (simp add: live_def)
  have t: "truthy (map_of ?d ''terminateRequested'')" by (simp add: f)
  from heartbeat_tick_terminates [OF assms(4-7) u l2 t, of rndA nowA] f(2)
  have "\<exists>s' w'. activeSessions (fst (heartbeat_tick rndA nowA sid cA ?st2)) sid = Some s'
               \<and> \<not> heartbeatTimer s' \<and> \<not> pongTimeoutTimer s' \<and> status s' = CLOSING
               \<and> ws s' = Some w' \<and> readyState w' = WS_CLOSING
               \<and> closeArgs w' = Some (1000, TerminationRequestedByProcess (Some (JNum (int (process_pid cB)))))"
    by simp
  with e l1 f(1) show ?thesis by blast
qed

theorem termination_request_reaches_owner_witness:
  "activeSessions client_other ''s1'' = None \<and> up store_completed_call
   \<and> live (clock store_completed_call) (sessions store_completed_call ''s1'') = Some record_completed
   \<and> activeSessions client1 ''s1'' = Some session1 \<and> heartbeatTimer session1
   \<and> ws session1 = Some (new_WebSocket\<lparr>readyState := WS_OPEN\<rparr>)
   \<and> readyState (new_WebSocket\<lparr>readyState := WS_OPEN\<rparr>) = WS_OPEN \<and> (15::nat) < 3600
   \<and> (\<exists>st1. endConversation 0 5000 ''s1'' client_other store_completed_call = (client_other, st1)
        \<and> (\<exists>s' w'. activeSessions (fst (heartbeat_tick 0 20000 ''s1'' client1 (st1\<lparr>clock := clock st1 + 15\<rparr>))) ''s1'' = Some s'
               \<and> status s' = CLOSING \<and> ws s' = Some w'
               \<and> closeArgs w' = Some (1000, TerminationRequestedByProcess (Some (JNum 9)))))"
proof -
  have a: "activeSessions client_other ''s1'' = None" by (simp add: client_other_def)
  have b: "up store_completed_call" by (simp add: store_completed_call_def store0_def)
  have c: "live (clock store_completed_call) (sessions store_completed_call ''s1'') = Some record_completed"
    by (simp add: store_completed_call_def store0_def live_def)
  have d: "activeSessions client1 ''s1'' = Some session1" by (simp add: client1_def)
  have e: "heartbeatTimer session1" "ws session1 = Some (new_WebSocket\<lparr>readyState := WS_OPEN\<rparr>)"
    by (simp_all add: session1_def)
  have f: "readyState (new_WebSocket\<lparr>readyState := WS_OPEN\<rparr>) = WS_OPEN" by simp
  have g: "(15::nat) < 3600" by simp
  have h: "int (process_pid client_other) = 9" by (simp add: client_other_def)
  from termination_request_reaches_owner [OF a b c d e f g, of 0 5000 0 20000] h
  have "\<exists>st1. endConversation 0 5000 ''s1'' client_other store_completed_call = (client_other, st1)
        \<and> (\<exists>s' w'. activeSessions (fst (heartbeat_tick 0 20000 ''s1'' client1 (st1\<lparr>clock := clock st1 + 15\<rparr>))) ''s1'' = Some s'
               \<and> status s' = CLOSING \<and> ws s' = Some w'
               \<and> closeArgs w' = Some (1000, TerminationRequestedByProcess (Some (JNum 9))))"
    by auto
  with a b c d e f g show ?thesis by blast
qed

text \<open>
  C9. The write of the termination request goes through \<^verbatim>\<open>saveOutboundSession\<close> with its
  default TTL: whatever the record's expiry was, it now expires 3600 seconds from the
  moment of the write. The stored object is the old one with \<^verbatim>\<open>status\<close>,
  \<^verbatim>\<open>terminateRequested\<close>, \<^verbatim>\<open>terminateRequestedBy\<close> and \<^verbatim>\<open>terminateRequestTime\<close> set; every
  other property reads as before, and no other key of the store changes.
\<close>

theorem termination_write_resets_ttl:
  assumes "activeSessions c sid = None" and "up st"
    and "sessions st sid = Some (d, deadline)" and "clock st < deadline"
  shows "\<exists>st'. endConversation rnd nowMs sid c st = (c, st')
          \<and> sessions st' sid = Some (terminationRequest d (process_pid c) nowMs, clock st + 3600)
          \<and> (\<forall>k. k \<notin> {''status'', ''terminateRequested'', ''terminateRequestedBy'', ''terminateRequestTime''}
                \<longrightarrow> map_of (terminationRequest d (process_pid c) nowMs) k = map_of d k)
          \<and> map_of (terminationRequest d (process_pid c) nowMs) ''status'' = Some (JStr ''terminating'')
          \<and> map_of (terminationRequest d (process_pid c) nowMs) ''terminateRequested'' = Some (JBool True)
          \<and> map_of (terminationRequest d (process_pid c) nowMs) ''terminateRequestedBy'' = Some (JNum (int (process_pid c)))
          \<and> map_of (terminationRequest d (process_pid c) nowMs) ''terminateRequestTime'' = Some (JNum nowMs)
          \<and> (\<forall>k. k \<noteq> sid \<longrightarrow> sessions st' k = sessions st k)
          \<and> owners st' = owners st \<and> clock st' = clock st"
proof -
  from assms(3,4) have "live (clock st) (sessions st sid) = Some d" by (simp add: live_def)
  from endConversation_remote [OF assms(1,2) this, of rnd nowMs]
  show ?thesis by (simp add: terminationRequest_fields)
qed

theorem termination_write_resets_ttl_witness:
  "activeSessions client_other ''s1'' = None \<and> up store_completed_call
   \<and> sessions store_completed_call ''s1'' = Some (record_completed, 86500)
   \<and> clock store_completed_call < 86500
   \<and> (\<exists>st'. endConversation 0 5000 ''s1'' client_other store_completed_call = (client_other, st')
        \<and> sessions st' ''s1'' =
            Some ([(''callSid'', JStr ''CA1''), (''status'', JStr ''terminating''), (''to'', JStr ''+15550100''),
                  (''terminateRequested'', JBool True), (''terminateRequestedBy'', JNum 9),
                  (''terminateRequestTime'', JNum 5000)], 3700))"
proof -
  have a: "activeSessions client_other ''s1'' = None" by (simp add: client_other_def)
  have b: "up store_completed_call" by (simp add: store_completed_call_def store0_def)
  have c: "sessions store_completed_call ''s1'' = Some (record_completed, 86500)"
    by (simp add: store_completed_call_def store0_def)
  have d: "clock store_completed_call < 86500" by (simp add: store_completed_call_def store0_def)
  have e: "terminationRequest record_completed (process_pid client_other) 5000 =
             [(''callSid'', JStr ''CA1''), (''status'', JStr ''terminating''), (''to'', JStr ''+15550100''),
                  (''terminateRequested'', JBool True), (''terminateRequestedBy'', JNum 9),
                  (''terminateRequestTime'', JNum 5000)]"
    by (simp add: terminationRequest_def spread_def record_completed_def client_other_def)
  have f: "clock store_completed_call + 3600 = 3700" by (simp add: store_completed_call_def store0_def)
  from termination_write_resets_ttl [OF a b c d, of 0 5000] e f
  have "\<exists>st'. endConversation 0 5000 ''s1'' client_other store_completed_call = (client_other, st')
        \<and> sessions st' ''s1'' =
            Some ([(''callSid'', JStr ''CA1''), (''status'', JStr ''terminating''), (''to'', JStr ''+15550100''),
                  (''terminateRequested'', JBool True), (''terminateRequestedBy'', JNum 9),
                  (''terminateRequestTime'', JNum 5000)], 3700)"
    by auto
  with a b c d show ?thesis by blast
qed

section \<open>Relaying AI audio to the caller\<close>

lemma send_buffered_open:
  assumes "readyState w = WS_OPEN" "JNull \<notin> set chunks"
  shows "send_buffered sid chunks w =
           (True, w\<lparr>sent := sent w @ map (\<lambda>chunk. twilioMediaMessage sid (jprop chunk ''audioBase64'')) chunks\<rparr>)"
  using assms
  by (induction chunks arbitrary: w) (auto simp: ws_send_def)

lemma messageHandler_buffers:
  assumes "\<not> truthy (streamSid_of srv)" "data \<noteq> JNull"
  shows "messageHandler sid (Some data) (AUDIO_CHANNEL_PREFIX @ sid) srv =
           srv\<lparr>serverAudioBuffers := (serverAudioBuffers srv)(sid \<mapsto>
                  push_bounded (case serverAudioBuffers srv sid of None \<Rightarrow> [] | Some b \<Rightarrow> b) data)\<rparr>"
  using assms by (simp add: messageHandler_def Let_def)

lemma messageHandler_delivers:
  assumes "truthy (streamSid_of srv)" "readyState (twilio srv) = WS_OPEN" "truthy (jprop data ''audioBase64'')"
  shows "messageHandler sid (Some data) (AUDIO_CHANNEL_PREFIX @ sid) srv =
           srv\<lparr>twilio := (twilio srv)\<lparr>sent := sent (twilio srv) @
                  [twilioMediaMessage (the (streamSid_of srv)) (jprop data ''audioBase64'')]\<rparr>\<rparr>"
proof -
  from assms(3) have "data \<noteq> JNull" by auto
  with assms show ?thesis by (simp add: messageHandler_def ws_send_def)
qed

lemmas relay_evals = on_twilio_message_def messageHandler_def server0_def server_ready_def start_event_def
  directAudioEnvelope_def AUDIO_CHANNEL_PREFIX_def streamSid_of_def push_bounded_def
  MAX_SERVER_BUFFER_SIZE_def testAudioPlayback_def ws_send_def new_WebSocket_def Let_def

text \<open>
  C3 (as amended). While the stream handle is unknown, each message from the relay channel
  is appended to the session's buffer, and the oldest entry is dropped once there are more
  than 20. When the \<^verbatim>\<open>start\<close> event brings the stream handle and the socket is open, the
  test tone is sent, then the buffered entries in the order they were buffered, with no
  sorting, and the buffer is deleted. A message that arrives when the handle is known and
  the socket open is sent at once. So chunks reach the caller in the order they arrived.
\<close>

theorem buffered_audio_sent_in_arrival_order:
  "(readyState (twilio srv) = WS_OPEN \<and> callInfo srv = Some ci
      \<and> serverAudioBuffers srv sid = Some chunks \<and> JNull \<notin> set chunks \<and> truthy (Some streamSid) \<longrightarrow>
      on_twilio_message sid
          (Some (JObj [(''event'', JStr ''start''), (''start'', JObj [(''streamSid'', streamSid)])])) srv =
        srv\<lparr>callInfo := Some (AList.update ''streamSid'' streamSid ci),
            twilio := (twilio srv)\<lparr>sent := sent (twilio srv)
                         @ [twilioMediaMessage streamSid (Some (JStr testTone))]
                         @ map (\<lambda>chunk. twilioMediaMessage streamSid (jprop chunk ''audioBase64'')) chunks\<rparr>,
            serverAudioBuffers := (serverAudioBuffers srv)(sid := None)\<rparr>)
   \<and> (\<not> truthy (streamSid_of srv) \<and> data \<noteq> JNull \<longrightarrow>
      messageHandler sid (Some data) (AUDIO_CHANNEL_PREFIX @ sid) srv =
        srv\<lparr>serverAudioBuffers := (serverAudioBuffers srv)(sid \<mapsto>
               push_bounded (case serverAudioBuffers srv sid of None \<Rightarrow> [] | Some b \<Rightarrow> b) data)\<rparr>)
   \<and> (truthy (streamSid_of srv) \<and> readyState (twilio srv) = WS_OPEN \<and> truthy (jprop data ''audioBase64'') \<longrightarrow>
      messageHandler sid (Some data) (AUDIO_CHANNEL_PREFIX @ sid) srv =
        srv\<lparr>twilio := (twilio srv)\<lparr>sent := sent (twilio srv) @
               [twilioMediaMessage (the (streamSid_of srv)) (jprop data ''audioBase64'')]\<rparr>\<rparr>)"
proof -
  have "on_twilio_message sid
          (Some (JObj [(''event'', JStr ''start''), (''start'', JObj [(''streamSid'', streamSid)])])) srv =
        srv\<lparr>callInfo := Some (AList.update ''streamSid'' streamSid ci),
            twilio := (twilio srv)\<lparr>sent := sent (twilio srv)
                         @ [twilioMediaMessage streamSid (Some (JStr testTone))]
                         @ map (\<lambda>chunk. twilioMediaMessage streamSid (jprop chunk ''audioBase64'')) chunks\<rparr>,
            serverAudioBuffers := (serverAudioBuffers srv)(sid := None)\<rparr>"
    if "readyState (twilio srv) = WS_OPEN" "callInfo srv = Some ci"
      "serverAudioBuffers srv sid = Some chunks" "JNull \<notin> set chunks" "truthy (Some streamSid)"
    using that
    by (simp add: on_twilio_message_def testAudioPlayback_def ws_send_def send_buffered_open Let_def)
  then show ?thesis
    using messageHandler_buffers [of srv data sid] messageHandler_delivers [of srv data sid] by blast
qed

theorem buffered_audio_sent_in_arrival_order_witness:
  "\<not> truthy (streamSid_of server0) \<and> directAudioEnvelope ''AAAA'' 1000 7 0 \<noteq> JNull
   \<and> serverAudioBuffers (messageHandler ''s1'' (Some (directAudioEnvelope ''AAAA'' 1000 7 0))
                             (AUDIO_CHANNEL_PREFIX @ ''s1'') server0) ''s1''
       = Some [directAudioEnvelope ''AAAA'' 1000 7 0]
   \<and> readyState (twilio server0) = WS_OPEN
   \<and> sent (twilio (on_twilio_message ''s1'' (Some start_event)
               (server0\<lparr>serverAudioBuffers := (\<lambda>k. None)(''s1'' \<mapsto> [directAudioEnvelope ''AAAA'' 1000 7 0])\<rparr>)))
       = [twilioMediaMessage (JStr ''MZ1'') (Some (JStr testTone)),
          twilioMediaMessage (JStr ''MZ1'') (Some (JStr ''AAAA''))]
   \<and> truthy (streamSid_of server_ready)
   \<and> sent (twilio (messageHandler ''s1'' (Some (directAudioEnvelope ''AAAA'' 1000 7 0))
                      (AUDIO_CHANNEL_PREFIX @ ''s1'') server_ready))
       = [twilioMediaMessage (JStr ''MZ1'') (Some (JStr ''AAAA''))]"
proof -
  let ?e = "directAudioEnvelope ''AAAA'' 1000 7 0"
  let ?srv = "server0\<lparr>serverAudioBuffers := (\<lambda>k. None)(''s1'' \<mapsto> [?e])\<rparr>"
  have a: "\<not> truthy (streamSid_of server0) \<and> ?e \<noteq> JNull"
    by (simp add: streamSid_of_def server0_def directAudioEnvelope_def)
  have b: "readyState (twilio ?srv) = WS_OPEN
      \<and> callInfo ?srv = Some [(''callSid'', JStr ''CA1''), (''status'', JStr ''in-progress'')]
      \<and> serverAudioBuffers ?srv ''s1'' = Some [?e] \<and> JNull \<notin> set [?e] \<and> truthy (Some (JStr ''MZ1''))"
    by (simp add: server0_def directAudioEnvelope_def)
  have c: "truthy (streamSid_of server_ready) \<and> readyState (twilio server_ready) = WS_OPEN
      \<and> truthy (jprop ?e ''audioBase64'')"
    by (simp add: streamSid_of_def server_ready_def server0_def directAudioEnvelope_def)
  have o: "readyState (twilio server0) = WS_OPEN" by (simp add: server0_def)
  from buffered_audio_sent_in_arrival_order [of server0 _ "''s1''" _ _ "?e"] a
  have 1: "serverAudioBuffers (messageHandler ''s1'' (Some ?e) (AUDIO_CHANNEL_PREFIX @ ''s1'') server0) ''s1''
       = Some [?e]"
    by (simp add: server0_def push_bounded_def MAX_SERVER_BUFFER_SIZE_def)
  from buffered_audio_sent_in_arrival_order
         [of "?srv" "[(''callSid'', JStr ''CA1''), (''status'', JStr ''in-progress'')]" "''s1''" "[?e]" "JStr ''MZ1''" "?e"] b
  have 2: "sent (twilio (on_twilio_message ''s1'' (Some start_event) ?srv))
       = [twilioMediaMessage (JStr ''MZ1'') (Some (JStr testTone)),
          twilioMediaMessage (JStr ''MZ1'') (Some (JStr ''AAAA''))]"
    by (simp add: start_event_def server0_def new_WebSocket_def directAudioEnvelope_def)
  from buffered_audio_sent_in_arrival_order [of server_ready _ "''s1''" _ _ "?e"] c
  have 3: "sent (twilio (messageHandler ''s1'' (Some ?e) (AUDIO_CHANNEL_PREFIX @ ''s1'') server_ready))
       = [twilioMediaMessage (JStr ''MZ1'') (Some (JStr ''AAAA''))]"
    by (simp add: server_ready_def server0_def new_WebSocket_def directAudioEnvelope_def streamSid_of_def)
  from a o c 1 2 3 show ?thesis by blast
qed

text \<open>
  C3 as stated fails. The envelope with sequence number 2 arrives before the envelope
  with sequence number 1, both before the stream handle is known. On \<^verbatim>\<open>start\<close> the
  coordinator sends the test tone, then payload \<^verbatim>\<open>BBBB\<close> (sequence 2), then payload
  \<^verbatim>\<open>AAAA\<close> (sequence 1): the buffer is not sorted.
\<close>

theorem buffer_flush_not_sorted:
  "sent (twilio (on_twilio_message ''s1'' (Some start_event)
         (messageHandler ''s1'' (Some (directAudioEnvelope ''AAAA'' 2000 7 1)) ''elevenlabs-to-twilio:s1''
           (messageHandler ''s1'' (Some (directAudioEnvelope ''BBBB'' 1000 7 2)) ''elevenlabs-to-twilio:s1''
              server0))))
     = [twilioMediaMessage (JStr ''MZ1'') (Some (JStr testTone)),
        twilioMediaMessage (JStr ''MZ1'') (Some (JStr ''BBBB'')),
        twilioMediaMessage (JStr ''MZ1'') (Some (JStr ''AAAA''))]
   \<and> jprop (directAudioEnvelope ''BBBB'' 1000 7 2) ''sequenceNumber'' = Some (JNum 2)
   \<and> jprop (directAudioEnvelope ''AAAA'' 2000 7 1) ''sequenceNumber'' = Some (JNum 1)"
  by (simp add: relay_evals)

text \<open>
  C8 (as amended). A message published on the session's relay channel whose
  \<^verbatim>\<open>audioBase64\<close> is present, received while the caller-facing socket is open and the
  stream handle known, makes the coordinator send exactly one frame. Its
  \<^verbatim>\<open>media.payload\<close> is the published \<^verbatim>\<open>audioBase64\<close>, unchanged; besides that it has only
  \<^verbatim>\<open>event\<close> and \<^verbatim>\<open>streamSid\<close>. The sequence number is not part of the frame.
\<close>

theorem relay_delivers_payload_only:
  assumes "truthy (streamSid_of srv)" and "readyState (twilio srv) = WS_OPEN"
    and "truthy (jprop data ''audioBase64'')"
  shows "\<exists>frame. messageHandler sid (Some data) (AUDIO_CHANNEL_PREFIX @ sid) srv =
                    srv\<lparr>twilio := (twilio srv)\<lparr>sent := sent (twilio srv) @ [frame]\<rparr>\<rparr>
          \<and> jprop (the (jprop frame ''media'')) ''payload'' = jprop data ''audioBase64''
          \<and> frame = JObj [(''event'', JStr ''media''), (''streamSid'', the (streamSid_of srv)),
                          (''media'', JObj [(''payload'', the (jprop data ''audioBase64''))])]
          \<and> jprop frame ''sequenceNumber'' = None
          \<and> jprop (the (jprop frame ''media'')) ''sequenceNumber'' = None"
proof -
  from assms(3) obtain p where "jprop data ''audioBase64'' = Some p" by (cases "jprop data ''audioBase64''") auto
  with messageHandler_delivers [OF assms, of sid] show ?thesis
    by (simp add: twilioMediaMessage_def)
qed

theorem relay_delivers_payload_only_witness:
  "truthy (streamSid_of server_ready) \<and> readyState (twilio server_ready) = WS_OPEN
   \<and> truthy (jprop (ttsEnvelope ''AAAA'' 1000 7 3) ''audioBase64'')
   \<and> sent (twilio (messageHandler ''s1'' (Some (ttsEnvelope ''AAAA'' 1000 7 3))
                      (AUDIO_CHANNEL_PREFIX @ ''s1'') server_ready))
       = [JObj [(''event'', JStr ''media''), (''streamSid'', JStr ''MZ1''),
                (''media'', JObj [(''payload'', JStr ''AAAA'')])]]"
proof -
  have a: "truthy (streamSid_of server_ready)" "readyState (twilio server_ready) = WS_OPEN"
    "truthy (jprop (ttsEnvelope ''AAAA'' 1000 7 3) ''audioBase64'')"
    by (simp_all add: streamSid_of_def server_ready_def server0_def ttsEnvelope_def)
  have b: "the (streamSid_of server_ready) = JStr ''MZ1''"
    "the (jprop (ttsEnvelope ''AAAA'' 1000 7 3) ''audioBase64'') = JStr ''AAAA''"
    "sent (twilio server_ready) = []"
    by (simp_all add: streamSid_of_def server_ready_def server0_def ttsEnvelope_def new_WebSocket_def)
  from relay_delivers_payload_only [OF a, of "''s1''"] b
  have "sent (twilio (messageHandler ''s1'' (Some (ttsEnvelope ''AAAA'' 1000 7 3))
                      (AUDIO_CHANNEL_PREFIX @ ''s1'') server_ready))
       = [JObj [(''event'', JStr ''media''), (''streamSid'', JStr ''MZ1''),
                (''media'', JObj [(''payload'', JStr ''AAAA'')])]]"
    by auto
  with a show ?thesis by blast
qed

text \<open>
  C8 as stated fails. Two envelopes that differ in their sequence number, 1 and 2, and
  carry the same payload are delivered as the same frame, and that frame has no
  \<^verbatim>\<open>sequenceNumber\<close>, neither at the top nor under \<^verbatim>\<open>media\<close>.
\<close>

theorem delivered_frame_has_no_sequence_number:
  "sent (twilio (messageHandler ''s1'' (Some (directAudioEnvelope ''AAAA'' 1000 7 1))
                   ''elevenlabs-to-twilio:s1'' server_ready))
     = sent (twilio (messageHandler ''s1'' (Some (directAudioEnvelope ''AAAA'' 1000 7 2))
                   ''elevenlabs-to-twilio:s1'' server_ready))
   \<and> sent (twilio (messageHandler ''s1'' (Some (directAudioEnvelope ''AAAA'' 1000 7 1))
                   ''elevenlabs-to-twilio:s1'' server_ready))
     = [JObj [(''event'', JStr ''media''), (''streamSid'', JStr ''MZ1''),
              (''media'', JObj [(''payload'', JStr ''AAAA'')])]]
   \<and> jprop (directAudioEnvelope ''AAAA'' 1000 7 1) ''sequenceNumber'' = Some (JNum 1)
   \<and> jprop (directAudioEnvelope ''AAAA'' 1000 7 2) ''sequenceNumber'' = Some (JNum 2)
   \<and> jprop (JObj [(''event'', JStr ''media''), (''streamSid'', JStr ''MZ1''),
                  (''media'', JObj [(''payload'', JStr ''AAAA'')])]) ''sequenceNumber'' = None"
  by (simp add: relay_evals twilioMediaMessage_def)

section \<open>The caller-facing socket closes\<close>

text \<open>
  C2 (as amended). When the caller-facing socket closes, for any code and reason, the
  coordinator drops the session's subscription: the relay channel is unsubscribed and the
  stored handler forgotten. The AI client and the shared store are left exactly as they
  were: no conversation is ended and no Session record is written. The \<^verbatim>\<open>'error'\<close> listener
  changes nothing at all.
\<close>

theorem media_stream_close_only_unsubscribes:
  "elevenlabs (on_twilio_close sid code reason srv) = elevenlabs srv
   \<and> sessionStore (on_twilio_close sid code reason srv) = sessionStore srv
   \<and> \<not> activeSubscriptions (on_twilio_close sid code reason srv) sid
   \<and> (activeSubscriptions srv sid \<longrightarrow> \<not> channels (on_twilio_close sid code reason srv) (AUDIO_CHANNEL_PREFIX @ sid))
   \<and> on_twilio_error sid srv = srv"
  by (simp add: on_twilio_close_def on_twilio_error_def)

theorem media_stream_close_only_unsubscribes_witness:
  "activeSubscriptions server0 ''s1''
   \<and> channels server0 (AUDIO_CHANNEL_PREFIX @ ''s1'')
   \<and> \<not> channels (on_twilio_close ''s1'' 1000 [] server0) (AUDIO_CHANNEL_PREFIX @ ''s1'')
   \<and> elevenlabs (on_twilio_close ''s1'' 1000 [] server0) = client1"
proof -
  have a: "activeSubscriptions server0 ''s1''" "channels server0 (AUDIO_CHANNEL_PREFIX @ ''s1'')"
    "elevenlabs server0 = client1"
    by (simp_all add: server0_def AUDIO_CHANNEL_PREFIX_def)
  from media_stream_close_only_unsubscribes [of "''s1''" 1000 "[]" server0] a
  show ?thesis by simp
qed

text \<open>
  C2 as stated fails. The socket of session \<^verbatim>\<open>s1\<close> closes with code 1000 while this process
  holds the open AI session. Afterwards the AI session is still \<^verbatim>\<open>OPEN\<close>, its socket is
  open and \<^verbatim>\<open>close\<close> was never called on it, and the Session record still says
  \<^verbatim>\<open>in-progress\<close>.
\<close>

theorem media_stream_close_leaves_ai_session_open:
  "map_option status (activeSessions (elevenlabs (on_twilio_close ''s1'' 1000 [] server0)) ''s1'') = Some OPEN
   \<and> map_option (\<lambda>s. map_option readyState (ws s))
        (activeSessions (elevenlabs (on_twilio_close ''s1'' 1000 [] server0)) ''s1'') = Some (Some WS_OPEN)
   \<and> map_option (\<lambda>s. map_option closeArgs (ws s))
        (activeSessions (elevenlabs (on_twilio_close ''s1'' 1000 [] server0)) ''s1'') = Some (Some None)
   \<and> sessions (sessionStore (on_twilio_close ''s1'' 1000 [] server0)) ''s1''
       = Some ([(''callSid'', JStr ''CA1''), (''status'', JStr ''in-progress'')], 3600)"
  by (simp add: on_twilio_close_def server0_def client1_def session1_def new_WebSocket_def store0_def)
end
